theory Spec2Isabelle
  imports Complex_Main
begin

section \<open>Parsed JSON, decomposed JWTs and errors\<close>

text \<open>
  A value produced by \<^verbatim>\<open>JSON.parse\<close>. An object is the list of its
  properties; \<^verbatim>\<open>obj[name]\<close> reads the binding of \<open>name\<close> (\<open>getprop\<close>),
  \<^verbatim>\<open>name in obj\<close> asks whether there is one (\<open>hasprop\<close>). Numbers are
  inspected by the code only through \<^verbatim>\<open>typeof\<close> and truthiness.
\<close>

datatype json =
    JNull
  | JBool bool
  | JNum rat
  | JStr string
  | JArr "json list"
  | JObj "(string \<times> json) list"

type_synonym JsonObject = "(string \<times> json) list"

definition getprop :: "JsonObject \<Rightarrow> string \<Rightarrow> json option" where
  "getprop obj name = map_of obj name"

definition hasprop :: "string \<Rightarrow> JsonObject \<Rightarrow> bool" where
  "hasprop name obj = (name \<in> set (map fst obj))"

text \<open>\<^verbatim>\<open>typeof v === "string"\<close>, for a property read (\<open>None\<close> is \<^verbatim>\<open>undefined\<close>).\<close>

fun typeof_string :: "json option \<Rightarrow> bool" where
  "typeof_string (Some (JStr s)) = True"
| "typeof_string v = False"

text \<open>JavaScript truthiness of a JSON value: \<^verbatim>\<open>!v\<close> is \<open>\<not> truthy v\<close>.\<close>

fun truthy :: "json \<Rightarrow> bool" where
  "truthy JNull = False"
| "truthy (JBool b) = b"
| "truthy (JNum n) = (n \<noteq> 0)"
| "truthy (JStr s) = (s \<noteq> [])"
| "truthy (JArr xs) = True"
| "truthy (JObj fs) = True"

text \<open>
  Modelled from the spec: \<^verbatim>\<open>isJsonObject\<close> of safe-json-parse.js is not among the
  sources; the validator "accepts arbitrary parsed JSON" and asks whether it is an
  object (neither an array nor \<^verbatim>\<open>null\<close>).
\<close>

fun isJsonObject :: "json \<Rightarrow> bool" where
  "isJsonObject (JObj fs) = True"
| "isJsonObject v = False"

record DecomposedJwt =
  header :: JsonObject
  payload :: JsonObject

text \<open>
  The error classes of error.js that the modelled code raises. \<open>OtherError\<close> stands for
  whatever a fetcher or a custom parser throws.
\<close>

datatype error_class =
    JwkValidationError
  | JwksValidationError
  | JwksNotAvailableInCacheError
  | KidNotFoundInJwksError
  | WaitPeriodNotYetEndedJwkError
  | JwtWithoutValidKidError
  | JwtInvalidSignatureError
  | JwtExpiredError
  | JwtNotBeforeError
  | JwtInvalidIssuerError
  | JwtInvalidAudienceError
  | JwtInvalidClaimError
  | ParameterValidationError
  | OtherError

record error =
  cls :: error_class
  message :: string
  rawJwt :: "DecomposedJwt option"

text \<open>\<^verbatim>\<open>new C(msg)\<close>: a freshly constructed error carries no raw JWT.\<close>

definition new_error :: "error_class \<Rightarrow> string \<Rightarrow> error" where
  "new_error c msg = \<lparr>cls = c, message = msg, rawJwt = None\<rparr>"

section \<open>JWK and JWKS validation (jwk.ts)\<close>

type_synonym Jwk = JsonObject

definition optionalJwkFieldNames :: "string list" where
  "optionalJwkFieldNames = [''use'', ''alg'', ''kid'', ''n'', ''e'', ''x'', ''y'', ''crv'']"

definition mandatoryJwkFieldNames :: "string list" where
  "mandatoryJwkFieldNames = [''kty'']"

text \<open>The two \<^verbatim>\<open>for (const field of ...)\<close> loops of \<^verbatim>\<open>assertIsJwk\<close>.\<close>

fun check_mandatory :: "JsonObject \<Rightarrow> string list \<Rightarrow> error + unit" where
  "check_mandatory jwk [] = Inr ()"
| "check_mandatory jwk (field # others) =
     (if \<not> typeof_string (getprop jwk field)
      then Inl (new_error JwkValidationError (''JWK '' @ field @ '' should be a string''))
      else check_mandatory jwk others)"

fun check_optional :: "JsonObject \<Rightarrow> string list \<Rightarrow> error + unit" where
  "check_optional jwk [] = Inr ()"
| "check_optional jwk (field # others) =
     (if hasprop field jwk \<and> \<not> typeof_string (getprop jwk field)
      then Inl (new_error JwkValidationError (''JWK '' @ field @ '' should be a string''))
      else check_optional jwk others)"

definition assertIsJwk :: "json \<Rightarrow> error + unit" where
  "assertIsJwk jwk =
     (if \<not> truthy jwk then Inl (new_error JwkValidationError ''JWK empty'')
      else if \<not> isJsonObject jwk
        then Inl (new_error JwkValidationError ''JWK should be an object'')
      else (case jwk of
              JObj fs \<Rightarrow>
                (case check_mandatory fs mandatoryJwkFieldNames of
                   Inl e \<Rightarrow> Inl e
                 | Inr u \<Rightarrow> check_optional fs optionalJwkFieldNames)
            | other \<Rightarrow> Inl (new_error JwkValidationError ''JWK should be an object'')))"

text \<open>\<^verbatim>\<open>for (const jwk of keys) assertIsJwk(jwk)\<close>: the first failure is thrown.\<close>

fun assertAllJwk :: "json list \<Rightarrow> error + unit" where
  "assertAllJwk [] = Inr ()"
| "assertAllJwk (jwk # rest) =
     (case assertIsJwk jwk of Inl e \<Rightarrow> Inl e | Inr u \<Rightarrow> assertAllJwk rest)"

definition assertIsJwks :: "json \<Rightarrow> error + unit" where
  "assertIsJwks jwks =
     (if \<not> truthy jwks then Inl (new_error JwksValidationError ''JWKS empty'')
      else if \<not> isJsonObject jwks
        then Inl (new_error JwksValidationError ''JWKS should be an object'')
      else (case jwks of
              JObj fs \<Rightarrow>
                (if \<not> hasprop ''keys'' fs
                 then Inl (new_error JwksValidationError ''JWKS does not include keys'')
                 else (case getprop fs ''keys'' of
                         Some (JArr ks) \<Rightarrow> assertAllJwk ks
                       | other \<Rightarrow>
                           Inl (new_error JwksValidationError
                                  ''JWKS keys should be an array'')))
            | other \<Rightarrow> Inl (new_error JwksValidationError ''JWKS should be an object'')))"

definition isJwk :: "json \<Rightarrow> bool" where
  "isJwk jwk = (case assertIsJwk jwk of Inl e \<Rightarrow> False | Inr u \<Rightarrow> True)"

definition isJwks :: "json \<Rightarrow> bool" where
  "isJwks jwks = (case assertIsJwks jwks of Inl e \<Rightarrow> False | Inr u \<Rightarrow> True)"

section \<open>The JWKS cache (jwk.ts, class SimpleJwksCache)\<close>

type_synonym JwksUri = string

text \<open>A validated key set: the code reads nothing of it but \<^verbatim>\<open>keys\<close>.\<close>

record Jwks =
  keys :: "Jwk list"

text \<open>\<^verbatim>\<open>v != null\<close>: neither \<^verbatim>\<open>undefined\<close> nor \<^verbatim>\<open>null\<close>.\<close>

fun not_nullish :: "json option \<Rightarrow> bool" where
  "not_nullish None = False"
| "not_nullish (Some JNull) = False"
| "not_nullish (Some v) = True"

definition findJwkInJwks :: "Jwks \<Rightarrow> string \<Rightarrow> Jwk option" where
  "findJwkInJwks jwks kid =
     find (\<lambda>jwk. not_nullish (getprop jwk ''kid'') \<and> getprop jwk ''kid'' = Some (JStr kid))
       (keys jwks)"

text \<open>
  The calls the cache makes to its collaborators, in the order it makes them. The trace
  is not a field of the class: it records the calls of \<^verbatim>\<open>fetcher.fetch\<close> and of
  the three \<^verbatim>\<open>penaltyBox\<close> methods so that their order can be stated.
\<close>

datatype event =
    Fetch JwksUri
  | Wait JwksUri string
  | RegisterFailed JwksUri string
  | RegisterSuccess JwksUri string

text \<open>
  One entry per promise \<^verbatim>\<open>fetcher.fetch(jwksUri).then(jwksParser)\<close> created by
  \<^verbatim>\<open>getJwks\<close>: in flight, settled (with the error or the parsed JWKS) while the
  call that created it has not yet run on from its \<^verbatim>\<open>await\<close>, or settled and
  that call has run on.
\<close>

datatype fetch_status =
    InFlight
  | Arrived "error + Jwks"
  | Delivered "error + Jwks"

text \<open>
  The interface \<^verbatim>\<open>PenaltyBox\<close>, over the state \<open>'pb\<close> of whichever implementation
  the cache was given.
\<close>

record 'pb PenaltyBox =
  pb_wait :: "'pb \<Rightarrow> JwksUri \<Rightarrow> string \<Rightarrow> error option \<times> 'pb"
  pb_registerFailedAttempt :: "'pb \<Rightarrow> JwksUri \<Rightarrow> string \<Rightarrow> 'pb"
  pb_registerSuccessfulAttempt :: "'pb \<Rightarrow> JwksUri \<Rightarrow> string \<Rightarrow> 'pb"

text \<open>
  The fields of the class (\<open>jwksCache\<close>, \<open>fetchingJwks\<close>, the state of its
  \<open>penaltyBox\<close>), the promises it has created (a promise is named by its index in
  \<open>fetches\<close>) and the trace.
\<close>

record 'pb SimpleJwksCache =
  jwksCache :: "JwksUri \<rightharpoonup> Jwks"
  fetchingJwks :: "JwksUri \<rightharpoonup> nat"
  fetches :: "(JwksUri \<times> fetch_status) list"
  penaltyBox :: 'pb
  trace :: "event list"

definition SimpleJwksCache_new :: "'pb \<Rightarrow> 'pb SimpleJwksCache" where
  "SimpleJwksCache_new box =
     \<lparr>jwksCache = Map.empty, fetchingJwks = Map.empty, fetches = [],
      penaltyBox = box, trace = []\<rparr>"

definition addJwks :: "'pb SimpleJwksCache \<Rightarrow> JwksUri \<Rightarrow> Jwks \<Rightarrow> 'pb SimpleJwksCache" where
  "addJwks s jwksUri jwks = s\<lparr>jwksCache := (jwksCache s)(jwksUri \<mapsto> jwks)\<rparr>"

subsection \<open>getJwks, in the pieces that run without interruption\<close>

text \<open>
  JavaScript runs a call until its next \<^verbatim>\<open>await\<close>. \<open>getJwks_begin\<close> is
  \<^verbatim>\<open>getJwks\<close> up to \<^verbatim>\<open>await jwksPromise\<close>: the promise the caller now waits
  for, whether this call created it, and the new state.
\<close>

definition getJwks_begin ::
  "'pb SimpleJwksCache \<Rightarrow> JwksUri \<Rightarrow> nat \<times> bool \<times> 'pb SimpleJwksCache" where
  "getJwks_begin s jwksUri =
     (case fetchingJwks s jwksUri of
        Some existingFetch \<Rightarrow> (existingFetch, False, s)
      | None \<Rightarrow>
          (let jwksPromise = length (fetches s) in
           (jwksPromise, True,
            s\<lparr>fetches := fetches s @ [(jwksUri, InFlight)],
              fetchingJwks := (fetchingJwks s)(jwksUri \<mapsto> jwksPromise),
              trace := trace s @ [Fetch jwksUri]\<rparr>)))"

text \<open>The fetcher and the parser finish: promise \<open>p\<close>, still in flight, settles with \<open>r\<close>.\<close>

definition settle ::
  "'pb SimpleJwksCache \<Rightarrow> nat \<Rightarrow> error + Jwks \<Rightarrow> 'pb SimpleJwksCache" where
  "settle s p r =
     (if p < length (fetches s) \<and> snd (fetches s ! p) = InFlight
      then s\<lparr>fetches := (fetches s)[p := (fst (fetches s ! p), Arrived r)]\<rparr>
      else s)"

text \<open>What a caller awaiting promise \<open>p\<close> receives: nothing while it is in flight.\<close>

definition outcome :: "'pb SimpleJwksCache \<Rightarrow> nat \<Rightarrow> (error + Jwks) option" where
  "outcome s p =
     (if p < length (fetches s)
      then (case snd (fetches s ! p) of
              InFlight \<Rightarrow> None
            | Arrived r \<Rightarrow> Some r
            | Delivered r \<Rightarrow> Some r)
      else None)"

text \<open>
  \<open>getJwks_end\<close> is the rest of \<^verbatim>\<open>getJwks\<close> in the call that created promise
  \<open>p\<close>, once \<open>p\<close> has settled with \<open>r\<close>: the \<^verbatim>\<open>finally\<close> block, then, unless
  the \<^verbatim>\<open>await\<close> threw, the cache update and the return.
\<close>

definition getJwks_end ::
  "'pb SimpleJwksCache \<Rightarrow> JwksUri \<Rightarrow> nat \<Rightarrow> error + Jwks
     \<Rightarrow> (error + Jwks) \<times> 'pb SimpleJwksCache" where
  "getJwks_end s jwksUri p r =
     (let s1 = s\<lparr>fetchingJwks := (fetchingJwks s)(jwksUri := None),
                 fetches := (fetches s)[p := (jwksUri, Delivered r)]\<rparr>
      in (case r of
            Inl err \<Rightarrow> (Inl err, s1)
          | Inr jwks \<Rightarrow> (Inr jwks, s1\<lparr>jwksCache := (jwksCache s1)(jwksUri \<mapsto> jwks)\<rparr>)))"

text \<open>
  A whole call of \<^verbatim>\<open>getJwks\<close> with nothing else running in between; \<open>r\<close> is what
  the promise settles with if it is still in flight. \<open>None\<close>: the call never returns.
\<close>

definition getJwks ::
  "'pb SimpleJwksCache \<Rightarrow> JwksUri \<Rightarrow> error + Jwks
     \<Rightarrow> (error + Jwks) option \<times> 'pb SimpleJwksCache" where
  "getJwks s jwksUri r =
     (case getJwks_begin s jwksUri of
        (p, created, s1) \<Rightarrow>
          (let s2 = settle s1 p r in
           (case outcome s2 p of
              None \<Rightarrow> (None, s2)
            | Some r' \<Rightarrow>
                (if created
                 then (case getJwks_end s2 jwksUri p r' of (res, s3) \<Rightarrow> (Some res, s3))
                 else (Some r', s2)))))"

subsection \<open>getCachedJwk and getJwk\<close>

text \<open>
  Both methods open with the test \<^verbatim>\<open>typeof decomposedJwt.header.kid !== "string"\<close>:
  it is the outer case distinction below, its throwing branch written last. After it
  \<^verbatim>\<open>getCachedJwk\<close> tests \<^verbatim>\<open>jwksCache.has(jwksUri)\<close>, then looks the key up.
  It assigns to nothing, so the state it returns is the one it was given.
\<close>

definition getCachedJwk ::
  "'pb SimpleJwksCache \<Rightarrow> JwksUri \<Rightarrow> DecomposedJwt
     \<Rightarrow> (error + Jwk) \<times> 'pb SimpleJwksCache" where
  "getCachedJwk s jwksUri decomposedJwt =
     (case getprop (header decomposedJwt) ''kid'' of
        Some (JStr kid) \<Rightarrow>
          (case jwksCache s jwksUri of
             None \<Rightarrow>
               (Inl (new_error JwksNotAvailableInCacheError
                       (''JWKS for uri '' @ jwksUri @ '' not yet available in cache'')), s)
           | Some jwks \<Rightarrow>
               (case findJwkInJwks jwks kid of
                  None \<Rightarrow>
                    (Inl (new_error KidNotFoundInJwksError
                            (''JWK for kid '' @ kid @ '' not found in the JWKS'')), s)
                | Some jwk \<Rightarrow> (Inr jwk, s)))
      | other \<Rightarrow>
          (Inl (new_error JwtWithoutValidKidError
                  ''JWT header does not have valid kid claim''), s))"

text \<open>\<^verbatim>\<open>getJwk\<close> from the line after \<^verbatim>\<open>await this.getJwks(jwksUri)\<close>.\<close>

definition getJwk_locate ::
  "'pb PenaltyBox \<Rightarrow> 'pb SimpleJwksCache \<Rightarrow> JwksUri \<Rightarrow> string \<Rightarrow> Jwks
     \<Rightarrow> (error + Jwk) \<times> 'pb SimpleJwksCache" where
  "getJwk_locate pb s jwksUri kid jwks =
     (case findJwkInJwks jwks kid of
        None \<Rightarrow>
          (Inl (new_error KidNotFoundInJwksError
                  (''JWK for kid '' @ [CHR 0x22] @ kid @ [CHR 0x22] @ '' not found in the JWKS'')),
           s\<lparr>penaltyBox := pb_registerFailedAttempt pb (penaltyBox s) jwksUri kid,
             trace := trace s @ [RegisterFailed jwksUri kid]\<rparr>)
      | Some jwk \<Rightarrow>
          (Inr jwk,
           s\<lparr>penaltyBox := pb_registerSuccessfulAttempt pb (penaltyBox s) jwksUri kid,
             trace := trace s @ [RegisterSuccess jwksUri kid]\<rparr>))"

text \<open>
  The call \<^verbatim>\<open>this.penaltyBox.wait(jwksUri, kid)\<close> of \<^verbatim>\<open>getJwk\<close>: what the
  \<^verbatim>\<open>await\<close> throws, if anything, and the new state.
\<close>

definition getJwk_wait ::
  "'pb PenaltyBox \<Rightarrow> 'pb SimpleJwksCache \<Rightarrow> JwksUri \<Rightarrow> string
     \<Rightarrow> error option \<times> 'pb SimpleJwksCache" where
  "getJwk_wait pb s jwksUri kid =
     (case pb_wait pb (penaltyBox s) jwksUri kid of
        (waited, box) \<Rightarrow>
          (waited, s\<lparr>penaltyBox := box, trace := trace s @ [Wait jwksUri kid]\<rparr>))"

text \<open>\<^verbatim>\<open>getJwk\<close> from that call on, the cache having missed.\<close>

definition getJwk_refresh ::
  "'pb PenaltyBox \<Rightarrow> 'pb SimpleJwksCache \<Rightarrow> JwksUri \<Rightarrow> string \<Rightarrow> error + Jwks
     \<Rightarrow> (error + Jwk) option \<times> 'pb SimpleJwksCache" where
  "getJwk_refresh pb s jwksUri kid r =
     (case getJwk_wait pb s jwksUri kid of
        (Some err, s1) \<Rightarrow> (Some (Inl err), s1)
      | (None, s1) \<Rightarrow>
          (case getJwks s1 jwksUri r of
             (None, s2) \<Rightarrow> (None, s2)
           | (Some (Inl err), s2) \<Rightarrow> (Some (Inl err), s2)
           | (Some (Inr jwks), s2) \<Rightarrow>
               (case getJwk_locate pb s2 jwksUri kid jwks of
                  (res, s3) \<Rightarrow> (Some res, s3))))"

text \<open>The cached look-up that opens \<^verbatim>\<open>getJwk\<close>.\<close>

definition cached_lookup :: "'pb SimpleJwksCache \<Rightarrow> JwksUri \<Rightarrow> string \<Rightarrow> Jwk option" where
  "cached_lookup s jwksUri kid =
     (case jwksCache s jwksUri of
        None \<Rightarrow> None
      | Some cachedJwks \<Rightarrow> findJwkInJwks cachedJwks kid)"

definition getJwk ::
  "'pb PenaltyBox \<Rightarrow> 'pb SimpleJwksCache \<Rightarrow> JwksUri \<Rightarrow> DecomposedJwt \<Rightarrow> error + Jwks
     \<Rightarrow> (error + Jwk) option \<times> 'pb SimpleJwksCache" where
  "getJwk pb s jwksUri decomposedJwt r =
     (case getprop (header decomposedJwt) ''kid'' of
        Some (JStr kid) \<Rightarrow>
          (case cached_lookup s jwksUri kid of
             Some cachedJwk \<Rightarrow> (Some (Inr cachedJwk), s)
           | None \<Rightarrow> getJwk_refresh pb s jwksUri kid r)
      | other \<Rightarrow>
          (Some (Inl (new_error JwtWithoutValidKidError
                        ''JWT header does not have valid kid claim'')), s))"

subsection \<open>Interleaved calls\<close>

text \<open>
  What can happen to a cache between two \<^verbatim>\<open>await\<close>s: some caller enters
  \<^verbatim>\<open>getJwks\<close> (directly, or from \<^verbatim>\<open>getJwk\<close>), a promise settles, the call
  that created a settled promise runs on, \<^verbatim>\<open>addJwks\<close> is called, or a call of
  \<^verbatim>\<open>getJwk\<close> reaches the penalty box, before or after its \<^verbatim>\<open>getJwks\<close>.
  \<open>Resume\<close> has no effect unless the promise has settled and its creator is still
  suspended.
\<close>

datatype 'pb action =
    Begin JwksUri
  | Settle nat "error + Jwks"
  | Resume nat
  | Add JwksUri Jwks
  | Ask "'pb PenaltyBox" JwksUri string
  | Locate "'pb PenaltyBox" JwksUri string Jwks

fun perform :: "'pb SimpleJwksCache \<Rightarrow> 'pb action \<Rightarrow> 'pb SimpleJwksCache" where
  "perform s (Begin jwksUri) = snd (snd (getJwks_begin s jwksUri))"
| "perform s (Settle p r) = settle s p r"
| "perform s (Resume p) =
     (if p < length (fetches s)
      then (case fetches s ! p of
              (jwksUri, Arrived r) \<Rightarrow> snd (getJwks_end s jwksUri p r)
            | other \<Rightarrow> s)
      else s)"
| "perform s (Add jwksUri jwks) = addJwks s jwksUri jwks"
| "perform s (Ask pb jwksUri kid) = snd (getJwk_wait pb s jwksUri kid)"
| "perform s (Locate pb jwksUri kid jwks) = snd (getJwk_locate pb s jwksUri kid jwks)"

fun run :: "'pb SimpleJwksCache \<Rightarrow> 'pb action list \<Rightarrow> 'pb SimpleJwksCache" where
  "run s [] = s"
| "run s (a # as) = run (perform s a) as"







section \<open>The penalty box (jwk.ts, class SimplePenaltyBox)\<close>

text \<open>
  The fields of the class are \<open>waitSeconds\<close> and \<open>waitingUris\<close> (a URI is mapped to
  the handle of its timer; a handle is an object or a positive number, so the test
  \<^verbatim>\<open>if (i)\<close> of \<^verbatim>\<open>release\<close> asks whether the URI has an entry). The rest is
  the runtime: the clock in milliseconds, the timers that are scheduled (handle, due
  time, and the URI that the callback \<^verbatim>\<open>() => this.waitingUris.delete(jwksUri)\<close>
  deletes) and the number of handles issued so far.
\<close>

record SimplePenaltyBox =
  waitSeconds :: nat
  waitingUris :: "JwksUri \<rightharpoonup> nat"
  timers :: "(nat \<times> nat \<times> JwksUri) list"
  issued :: nat
  clock :: nat

text \<open>\<^verbatim>\<open>new SimplePenaltyBox(props)\<close>: \<^verbatim>\<open>props?.waitSeconds ?? 10\<close>.\<close>

definition SimplePenaltyBox_new :: "nat option \<Rightarrow> SimplePenaltyBox" where
  "SimplePenaltyBox_new props =
     \<lparr>waitSeconds = (case props of None \<Rightarrow> 10 | Some w \<Rightarrow> w),
      waitingUris = Map.empty, timers = [], issued = 0, clock = 0\<rparr>"

text \<open>
  Modelled from the spec: \<^verbatim>\<open>nodeWebCompat.setTimeoutUnref\<close> is not among the
  sources; "registering a failure starts a timer that releases itself on expiry". The
  timer is scheduled \<open>ms\<close> milliseconds from now and a fresh handle is returned.
\<close>

definition setTimeoutUnref ::
  "SimplePenaltyBox \<Rightarrow> JwksUri \<Rightarrow> nat \<Rightarrow> nat \<times> SimplePenaltyBox" where
  "setTimeoutUnref b jwksUri ms =
     (let i = Suc (issued b)
      in (i, b\<lparr>timers := timers b @ [(i, clock b + ms, jwksUri)], issued := i\<rparr>))"

definition clearTimeout :: "SimplePenaltyBox \<Rightarrow> nat \<Rightarrow> SimplePenaltyBox" where
  "clearTimeout b i = b\<lparr>timers := filter (\<lambda>(h, due, u). h \<noteq> i) (timers b)\<rparr>"

text \<open>The callbacks of the timers due by time \<open>t\<close>, run in the order they were set.\<close>

fun fire :: "(nat \<times> nat \<times> JwksUri) list \<Rightarrow> nat \<Rightarrow> (JwksUri \<rightharpoonup> nat) \<Rightarrow> (JwksUri \<rightharpoonup> nat)" where
  "fire [] t m = m"
| "fire ((i, due, u) # ts) t m = fire ts t (if due \<le> t then m(u := None) else m)"

text \<open>Time passes until the clock shows \<open>t\<close>: every timer due by then has fired.\<close>

definition advance :: "SimplePenaltyBox \<Rightarrow> nat \<Rightarrow> SimplePenaltyBox" where
  "advance b t =
     b\<lparr>waitingUris := fire (timers b) t (waitingUris b),
       timers := filter (\<lambda>(i, due, u). t < due) (timers b),
       clock := max (clock b) t\<rparr>"

text \<open>
  The methods. The interface passes a \<open>kid\<close> to each; the class declares them with the
  URI alone, so the argument is dropped.
\<close>

definition wait :: "SimplePenaltyBox \<Rightarrow> JwksUri \<Rightarrow> string \<Rightarrow> error option \<times> SimplePenaltyBox" where
  "wait b jwksUri kid =
     (if waitingUris b jwksUri \<noteq> None
      then (Some (new_error WaitPeriodNotYetEndedJwkError
              ''Not allowed to fetch JWKS yet, still waiting for back off period to end''), b)
      else (None, b))"

definition release :: "SimplePenaltyBox \<Rightarrow> JwksUri \<Rightarrow> SimplePenaltyBox" where
  "release b jwksUri =
     (case waitingUris b jwksUri of
        None \<Rightarrow> b
      | Some i \<Rightarrow> (clearTimeout b i)\<lparr>waitingUris := (waitingUris b)(jwksUri := None)\<rparr>)"

definition registerFailedAttempt :: "SimplePenaltyBox \<Rightarrow> JwksUri \<Rightarrow> string \<Rightarrow> SimplePenaltyBox" where
  "registerFailedAttempt b jwksUri kid =
     (case setTimeoutUnref b jwksUri (waitSeconds b * 1000) of
        (i, b1) \<Rightarrow> b1\<lparr>waitingUris := (waitingUris b1)(jwksUri \<mapsto> i)\<rparr>)"

definition registerSuccessfulAttempt ::
  "SimplePenaltyBox \<Rightarrow> JwksUri \<Rightarrow> string \<Rightarrow> SimplePenaltyBox" where
  "registerSuccessfulAttempt b jwksUri kid = release b jwksUri"

definition simplePenaltyBox :: "SimplePenaltyBox PenaltyBox" where
  "simplePenaltyBox =
     \<lparr>pb_wait = wait,
      pb_registerFailedAttempt = registerFailedAttempt,
      pb_registerSuccessfulAttempt = registerSuccessfulAttempt\<rparr>"

section \<open>The ALB verifier (class AlbJwtVerifier)\<close>

text \<open>\<^verbatim>\<open>string | string[] | null\<close>, or not given.\<close>

datatype expectation =
    Undefined
  | Null
  | One string
  | Many "string list"

fun candidates :: "expectation \<Rightarrow> string list" where
  "candidates (One v) = [v]"
| "candidates (Many vs) = vs"
| "candidates other = []"

record VerifyProperties =
  albArn :: expectation
  clientId :: expectation
  includeRawJwtInErrors :: "bool option"

text \<open>
  Modelled from the spec: error.js is not among the sources. \<^verbatim>\<open>JwtInvalidClaimError\<close>
  is the "catch-all, also base class" of the claim errors, and "only these may carry a
  rawJwt"; attaching is "attach the decomposed JWT to the error".
\<close>

definition instanceof_JwtInvalidClaimError :: "error \<Rightarrow> bool" where
  "instanceof_JwtInvalidClaimError err =
     (cls err \<in> {JwtExpiredError, JwtNotBeforeError, JwtInvalidIssuerError,
                  JwtInvalidAudienceError, JwtInvalidClaimError})"

definition withRawJwt :: "error \<Rightarrow> DecomposedJwt \<Rightarrow> error" where
  "withRawJwt err decomposedJwt = err\<lparr>rawJwt := Some decomposedJwt\<rparr>"

text \<open>
  Modelled from the spec: assert.js is not among the sources. "Header \<open>signer\<close> must match
  configured \<open>albArn\<close> (same list semantics)", "if configured value is a list, at least
  one must match", and a mismatch is a \<^verbatim>\<open>JwtInvalidClaimError\<close> naming the field.
\<close>

definition assertStringArrayContainsString ::
  "string \<Rightarrow> json option \<Rightarrow> expectation \<Rightarrow> error + unit" where
  "assertStringArrayContainsString name actual expected =
     (case actual of
        Some (JStr a) \<Rightarrow>
          (if a \<in> set (candidates expected) then Inr ()
           else Inl (new_error JwtInvalidClaimError (name @ '' not allowed: '' @ a)))
      | other \<Rightarrow> Inl (new_error JwtInvalidClaimError (''Missing '' @ name)))"

definition validateAlbJwtFields :: "JsonObject \<Rightarrow> VerifyProperties \<Rightarrow> error + unit" where
  "validateAlbJwtFields hdr options =
     (case (if albArn options \<noteq> Null
            then (if albArn options = Undefined
                  then Inl (new_error ParameterValidationError
                              ''albArn must be provided or set to null explicitly'')
                  else assertStringArrayContainsString ''ALB ARN''
                         (getprop hdr ''signer'') (albArn options))
            else Inr ()) of
        Inl err \<Rightarrow> Inl err
      | Inr u \<Rightarrow>
          (if clientId options \<noteq> Null
           then (if clientId options = Undefined
                 then Inl (new_error ParameterValidationError
                             ''clientId must be provided or set to null explicitly'')
                 else assertStringArrayContainsString ''Client ID''
                        (getprop hdr ''client'') (clientId options))
           else Inr ()))"

text \<open>
  Modelled from the spec: the base class \<^verbatim>\<open>JwtVerifierBase\<close> is not among the
  sources. What its \<^verbatim>\<open>verifyDecomposedJwt\<close> finds is one of: the key could not
  be obtained or the signature did not verify (steps 4 and 5); the signature verified and
  a claim check failed (step 6); all passed. Step 7: "on any \<^verbatim>\<open>JwtInvalidClaimError\<close>,
  if \<open>includeRawJwtInErrors\<close> is true and the signature already verified, attach the
  decomposed JWT to the error before rethrowing; otherwise rethrow unchanged. A signature
  failure never attaches raw JWT content."
\<close>

datatype finding =
    SignatureFailed error_class string
  | ClaimFailed error_class string
  | Passed

definition verifyDecomposedJwt ::
  "finding \<Rightarrow> DecomposedJwt \<Rightarrow> VerifyProperties \<Rightarrow> error + unit" where
  "verifyDecomposedJwt found decomposedJwt verifyProperties =
     (case found of
        SignatureFailed c msg \<Rightarrow> Inl (new_error c msg)
      | ClaimFailed c msg \<Rightarrow>
          (let err = new_error c msg in
           if includeRawJwtInErrors verifyProperties = Some True
              \<and> instanceof_JwtInvalidClaimError err
           then Inl (withRawJwt err decomposedJwt)
           else Inl err)
      | Passed \<Rightarrow> Inr ())"

text \<open>
  \<^verbatim>\<open>verify\<close> and \<^verbatim>\<open>verifySync\<close>, after \<^verbatim>\<open>getVerifyParameters\<close> has
  produced the decomposed JWT and the merged properties. The two bodies differ only in
  the base-class method they call (with or without fetching).
\<close>

definition verify ::
  "finding \<Rightarrow> DecomposedJwt \<Rightarrow> VerifyProperties \<Rightarrow> error + JsonObject" where
  "verify found decomposedJwt verifyProperties =
     (case verifyDecomposedJwt found decomposedJwt verifyProperties of
        Inl err \<Rightarrow> Inl err
      | Inr u \<Rightarrow>
          (case validateAlbJwtFields (header decomposedJwt) verifyProperties of
             Inl err \<Rightarrow>
               (if includeRawJwtInErrors verifyProperties = Some True
                   \<and> instanceof_JwtInvalidClaimError err
                then Inl (withRawJwt err decomposedJwt)
                else Inl err)
           | Inr u \<Rightarrow> Inr (payload decomposedJwt)))"

definition verifySync ::
  "finding \<Rightarrow> DecomposedJwt \<Rightarrow> VerifyProperties \<Rightarrow> error + JsonObject" where
  "verifySync found decomposedJwt verifyProperties =
     (case verifyDecomposedJwt found decomposedJwt verifyProperties of
        Inl err \<Rightarrow> Inl err
      | Inr u \<Rightarrow>
          (case validateAlbJwtFields (header decomposedJwt) verifyProperties of
             Inl err \<Rightarrow>
               (if includeRawJwtInErrors verifyProperties = Some True
                   \<and> instanceof_JwtInvalidClaimError err
                then Inl (withRawJwt err decomposedJwt)
                else Inl err)
           | Inr u \<Rightarrow> Inr (payload decomposedJwt)))"

section \<open>Predicates for reasoning about interleaved calls\<close>



section \<open>Sample values\<close>

text \<open>
  A key set with one key in the cache, a fetched set that adds a rotated key (twice), and
  tokens for them; values on which the theorems below are instantiated.
\<close>

definition sample_uri :: JwksUri where
  "sample_uri = ''https://idp/jwks''"

definition key_k1 :: Jwk where
  "key_k1 = [(''kty'', JStr ''RSA''), (''kid'', JStr ''k1'')]"

definition key_k2 :: Jwk where
  "key_k2 = [(''kty'', JStr ''RSA''), (''kid'', JStr ''k2''), (''n'', JStr ''AQAB'')]"

definition key_k2_again :: Jwk where
  "key_k2_again = [(''kty'', JStr ''EC''), (''kid'', JStr ''k2'')]"

definition cached_set :: Jwks where
  "cached_set = \<lparr>keys = [key_k1]\<rparr>"

definition fetched_set :: Jwks where
  "fetched_set = \<lparr>keys = [key_k1, key_k2, key_k2_again]\<rparr>"

definition token_k2 :: DecomposedJwt where
  "token_k2 = \<lparr>header = [(''alg'', JStr ''RS256''), (''kid'', JStr ''k2'')], payload = []\<rparr>"

definition warm_cache :: "SimplePenaltyBox SimpleJwksCache" where
  "warm_cache = addJwks (SimpleJwksCache_new (SimplePenaltyBox_new None)) sample_uri cached_set"

definition full_cache :: "SimplePenaltyBox SimpleJwksCache" where
  "full_cache = addJwks warm_cache sample_uri fetched_set"

definition token_without_kid :: DecomposedJwt where
  "token_without_kid = \<lparr>header = [(''alg'', JStr ''RS256'')], payload = []\<rparr>"

definition key_empty_kid :: Jwk where
  "key_empty_kid = [(''kty'', JStr ''RSA''), (''kid'', JStr [])]"

definition token_empty_kid :: DecomposedJwt where
  "token_empty_kid = \<lparr>header = [(''alg'', JStr ''RS256''), (''kid'', JStr [])], payload = []\<rparr>"

definition odd_cache :: "SimplePenaltyBox SimpleJwksCache" where
  "odd_cache = addJwks warm_cache sample_uri \<lparr>keys = [key_k1, key_empty_kid]\<rparr>"

definition blocked_cache :: "SimplePenaltyBox SimpleJwksCache" where
  "blocked_cache =
     warm_cache\<lparr>penaltyBox :=
       registerFailedAttempt (SimplePenaltyBox_new None) sample_uri ''k9''\<rparr>"

definition fetch_error :: error where
  "fetch_error = new_error OtherError ''socket hang up''"


definition busy_cache :: "SimplePenaltyBox SimpleJwksCache" where
  "busy_cache = run warm_cache [Begin sample_uri, Begin sample_uri]"

text \<open>A penalty box with the default wait of ten seconds, and one with two failures 4 s apart.\<close>

definition fresh_box :: SimplePenaltyBox where
  "fresh_box = SimplePenaltyBox_new None"

definition twice_failed :: SimplePenaltyBox where
  "twice_failed =
     registerFailedAttempt
       (advance (registerFailedAttempt fresh_box sample_uri ''k8'') 4000) sample_uri ''k9''"

text \<open>
  An ALB token signed by another load balancer than the one configured (scenario S5 of the
  specification).
\<close>

definition alb_token :: DecomposedJwt where
  "alb_token =
     \<lparr>header = [(''alg'', JStr ''ES256''), (''kid'', JStr ''alb1''),
                (''signer'', JStr ''arn:other''), (''client'', JStr ''client-xyz'')],
      payload = [(''iss'', JStr ''https://issuer.example'')]\<rparr>"

definition alb_props :: VerifyProperties where
  "alb_props =
     \<lparr>albArn = One ''arn:alb1'', clientId = One ''client-xyz'',
      includeRawJwtInErrors = Some True\<rparr>"

section \<open>The validator accepts by type, not by key family\<close>

lemma hasprop_getprop: "hasprop f fs = (getprop fs f \<noteq> None)"
  by (simp add: hasprop_def getprop_def map_of_eq_None_iff)

lemma check_mandatory_iff:
  "(check_mandatory fs ns = Inr ()) = (\<forall>f\<in>set ns. typeof_string (getprop fs f))"
  by (induction ns) auto

lemma check_optional_iff:
  "(check_optional fs ns = Inr ()) = (\<forall>f\<in>set ns. hasprop f fs \<longrightarrow> typeof_string (getprop fs f))"
  by (induction ns) auto

lemma check_mandatory_cls: "check_mandatory fs ns = Inl e \<Longrightarrow> cls e = JwkValidationError"
  by (induction ns) (auto simp: new_error_def split: if_splits)

lemma check_optional_cls: "check_optional fs ns = Inl e \<Longrightarrow> cls e = JwkValidationError"
  by (induction ns) (auto simp: new_error_def split: if_splits)

lemma assertIsJwk_obj:
  "assertIsJwk (JObj fs) =
     (case check_mandatory fs mandatoryJwkFieldNames of
        Inl e \<Rightarrow> Inl e | Inr u \<Rightarrow> check_optional fs optionalJwkFieldNames)"
  by (simp add: assertIsJwk_def)

lemma assertIsJwk_iff:
  "(assertIsJwk j = Inr ()) =
     (\<exists>fs. j = JObj fs \<and> typeof_string (getprop fs ''kty'')
        \<and> (\<forall>f\<in>set optionalJwkFieldNames. hasprop f fs \<longrightarrow> typeof_string (getprop fs f)))"
proof (cases j)
  case (JObj fs)
  show ?thesis
    unfolding JObj assertIsJwk_obj
    by (auto simp: check_mandatory_iff check_optional_iff mandatoryJwkFieldNames_def
        split: sum.splits)
qed (auto simp: assertIsJwk_def)

lemma assertIsJwk_cls: "assertIsJwk j = Inl e \<Longrightarrow> cls e = JwkValidationError"
proof (cases j)
  case (JObj fs)
  assume "assertIsJwk j = Inl e"
  then show ?thesis
    unfolding JObj assertIsJwk_obj
    by (auto split: sum.splits dest: check_mandatory_cls check_optional_cls)
qed (auto simp: assertIsJwk_def new_error_def split: if_splits)

lemma check_mandatory_cong:
  "\<forall>f\<in>set ns. getprop fs f = getprop fs' f \<Longrightarrow> check_mandatory fs ns = check_mandatory fs' ns"
  by (induction ns) auto

lemma check_optional_cong:
  "\<forall>f\<in>set ns. getprop fs f = getprop fs' f \<Longrightarrow> check_optional fs ns = check_optional fs' ns"
  by (induction ns) (auto simp: hasprop_getprop)

lemma assertIsJwk_cong:
  assumes "\<forall>f\<in>set (mandatoryJwkFieldNames @ optionalJwkFieldNames). getprop fs f = getprop fs' f"
  shows "assertIsJwk (JObj fs) = assertIsJwk (JObj fs')"
proof -
  have "check_mandatory fs mandatoryJwkFieldNames = check_mandatory fs' mandatoryJwkFieldNames"
    using assms by (intro check_mandatory_cong) simp
  moreover have "check_optional fs optionalJwkFieldNames = check_optional fs' optionalJwkFieldNames"
    using assms by (intro check_optional_cong) simp
  ultimately show ?thesis by (simp add: assertIsJwk_obj split: sum.splits)
qed

lemma assertAllJwk_iff: "(assertAllJwk ks = Inr ()) = (\<forall>k\<in>set ks. assertIsJwk k = Inr ())"
  by (induction ks) (auto split: sum.splits)

lemma assertAllJwk_cls: "assertAllJwk ks = Inl e \<Longrightarrow> cls e = JwkValidationError"
  by (induction ks) (auto split: sum.splits dest: assertIsJwk_cls)

lemma assertIsJwks_iff:
  "(assertIsJwks j = Inr ()) =
     (\<exists>fs ks. j = JObj fs \<and> getprop fs ''keys'' = Some (JArr ks)
        \<and> (\<forall>k\<in>set ks. assertIsJwk k = Inr ()))"
  by (cases j)
     (auto simp: assertIsJwks_def assertAllJwk_iff hasprop_getprop
           split: option.splits json.splits)

lemma assertIsJwks_cls:
  "assertIsJwks j = Inl e \<Longrightarrow> cls e = JwksValidationError \<or> cls e = JwkValidationError"
  by (cases j)
     (auto simp: assertIsJwks_def new_error_def
           split: option.splits json.splits if_splits dest: assertAllJwk_cls)

lemma assertIsJwks_shape:
  assumes "\<not> (\<exists>fs ks. j = JObj fs \<and> getprop fs ''keys'' = Some (JArr ks))"
  shows "\<exists>e. assertIsJwks j = Inl e \<and> cls e = JwksValidationError"
proof (cases j)
  case (JObj fs)
  have "\<forall>ks. getprop fs ''keys'' \<noteq> Some (JArr ks)" using assms JObj by simp
  then show ?thesis
    unfolding JObj
    by (cases "getprop fs ''keys''"; cases "the (getprop fs ''keys'')")
       (simp_all add: assertIsJwks_def new_error_def)
qed (simp_all add: assertIsJwks_def new_error_def)

lemma assertIsJwks_keys:
  "getprop fs ''keys'' = Some (JArr ks) \<Longrightarrow> assertIsJwks (JObj fs) = assertAllJwk ks"
  by (simp add: assertIsJwks_def hasprop_getprop)

lemma assertAllJwk_first:
  "\<exists>k\<in>set ks. assertIsJwk k \<noteq> Inr () \<Longrightarrow>
   \<exists>i<length ks. (\<forall>m<i. assertIsJwk (ks ! m) = Inr ())
      \<and> (\<exists>e. assertIsJwk (ks ! i) = Inl e \<and> assertAllJwk ks = Inl e
            \<and> cls e = JwkValidationError)"
proof (induction ks)
  case Nil
  then show ?case by simp
next
  case (Cons k ks)
  show ?case
  proof (cases "assertIsJwk k")
    case (Inl e)
    then have "assertIsJwk ((k # ks) ! 0) = Inl e \<and> assertAllJwk (k # ks) = Inl e
        \<and> cls e = JwkValidationError"
      by (simp add: assertIsJwk_cls)
    then show ?thesis by (intro exI [of _ 0]) auto
  next
    case (Inr u)
    then have ok: "assertIsJwk k = Inr ()" by simp
    then have "\<exists>k\<in>set ks. assertIsJwk k \<noteq> Inr ()" using Cons.prems by auto
    then obtain i e where i: "i < length ks" "\<forall>m<i. assertIsJwk (ks ! m) = Inr ()"
      "assertIsJwk (ks ! i) = Inl e" "assertAllJwk ks = Inl e" "cls e = JwkValidationError"
      using Cons.IH by blast
    have before: "\<forall>m<Suc i. assertIsJwk ((k # ks) ! m) = Inr ()"
    proof (intro allI impI)
      fix m assume "m < Suc i"
      then show "assertIsJwk ((k # ks) ! m) = Inr ()"
        using ok i(2) by (cases m) simp_all
    qed
    have "assertIsJwk ((k # ks) ! Suc i) = Inl e \<and> assertAllJwk (k # ks) = Inl e
        \<and> cls e = JwkValidationError"
      using ok i(3,4,5) by simp
    then show ?thesis
      using before i(1) by (intro exI [of _ "Suc i"]) auto
  qed
qed

lemma assertIsJwks_member:
  assumes "j = JObj fs" "getprop fs ''keys'' = Some (JArr ks)"
    "\<exists>k\<in>set ks. assertIsJwk k \<noteq> Inr ()"
  shows "\<exists>i<length ks. (\<forall>m<i. assertIsJwk (ks ! m) = Inr ())
      \<and> (\<exists>e. assertIsJwk (ks ! i) = Inl e \<and> assertIsJwks j = Inl e
            \<and> cls e = JwkValidationError)"
  using assertAllJwk_first [OF assms(3)]
  unfolding assms(1) assertIsJwks_keys [OF assms(2)] .

text \<open>
  C7, amended. \<^verbatim>\<open>assertIsJwk\<close> accepts a JSON value exactly when it is an object
  whose \<open>kty\<close> is a string (any string) and whose fields among \<open>use\<close>, \<open>alg\<close>,
  \<open>kid\<close>, \<open>n\<close>, \<open>e\<close>, \<open>x\<close>, \<open>y\<close>, \<open>crv\<close> are strings when present; every other
  value is rejected with a \<^verbatim>\<open>JwkValidationError\<close>; the verdict depends on no
  other field. \<^verbatim>\<open>assertIsJwks\<close> accepts exactly the objects whose \<open>keys\<close> is an
  array of accepted values. A value that is not an object with an array \<open>keys\<close> (a
  malformed set) is rejected with a \<^verbatim>\<open>JwksValidationError\<close>; a set with a member
  that \<^verbatim>\<open>assertIsJwk\<close> rejects (a malformed member) is rejected with the
  \<^verbatim>\<open>JwkValidationError\<close> of the first such member.
\<close>

theorem jwk_validator_refines:
  "(assertIsJwk j = Inr ()) =
     (\<exists>fs. j = JObj fs \<and> typeof_string (getprop fs ''kty'')
        \<and> (\<forall>f\<in>set optionalJwkFieldNames. hasprop f fs \<longrightarrow> typeof_string (getprop fs f)))
   \<and> (\<forall>e. assertIsJwk j = Inl e \<longrightarrow> cls e = JwkValidationError)
   \<and> ((\<forall>f\<in>set (mandatoryJwkFieldNames @ optionalJwkFieldNames). getprop fs1 f = getprop fs2 f)
        \<longrightarrow> assertIsJwk (JObj fs1) = assertIsJwk (JObj fs2))
   \<and> (assertIsJwks j = Inr ()) =
       (\<exists>fs ks. j = JObj fs \<and> getprop fs ''keys'' = Some (JArr ks)
          \<and> (\<forall>k\<in>set ks. assertIsJwk k = Inr ()))
   \<and> (\<not> (\<exists>fs ks. j = JObj fs \<and> getprop fs ''keys'' = Some (JArr ks)) \<longrightarrow>
         (\<exists>e. assertIsJwks j = Inl e \<and> cls e = JwksValidationError))
   \<and> (\<forall>fs ks. j = JObj fs \<and> getprop fs ''keys'' = Some (JArr ks)
          \<and> (\<exists>k\<in>set ks. assertIsJwk k \<noteq> Inr ()) \<longrightarrow>
         (\<exists>i<length ks. (\<forall>m<i. assertIsJwk (ks ! m) = Inr ())
            \<and> (\<exists>e. assertIsJwk (ks ! i) = Inl e \<and> assertIsJwks j = Inl e
                  \<and> cls e = JwkValidationError)))
   \<and> (\<forall>e. assertIsJwks j = Inl e \<longrightarrow>
          cls e = JwksValidationError \<or> cls e = JwkValidationError)"
proof (intro conjI)
  show "(assertIsJwk j = Inr ()) =
     (\<exists>fs. j = JObj fs \<and> typeof_string (getprop fs ''kty'')
        \<and> (\<forall>f\<in>set optionalJwkFieldNames. hasprop f fs \<longrightarrow> typeof_string (getprop fs f)))"
    by (rule assertIsJwk_iff)
  show "\<forall>e. assertIsJwk j = Inl e \<longrightarrow> cls e = JwkValidationError"
    by (simp add: assertIsJwk_cls)
  show "(\<forall>f\<in>set (mandatoryJwkFieldNames @ optionalJwkFieldNames). getprop fs1 f = getprop fs2 f)
        \<longrightarrow> assertIsJwk (JObj fs1) = assertIsJwk (JObj fs2)"
    using assertIsJwk_cong [of fs1 fs2] by (rule impI)
  show "(assertIsJwks j = Inr ()) =
       (\<exists>fs ks. j = JObj fs \<and> getprop fs ''keys'' = Some (JArr ks)
          \<and> (\<forall>k\<in>set ks. assertIsJwk k = Inr ()))"
    by (rule assertIsJwks_iff)
  show "\<not> (\<exists>fs ks. j = JObj fs \<and> getprop fs ''keys'' = Some (JArr ks)) \<longrightarrow>
         (\<exists>e. assertIsJwks j = Inl e \<and> cls e = JwksValidationError)"
    using assertIsJwks_shape [of j] by (rule impI)
  show "\<forall>fs ks. j = JObj fs \<and> getprop fs ''keys'' = Some (JArr ks)
          \<and> (\<exists>k\<in>set ks. assertIsJwk k \<noteq> Inr ()) \<longrightarrow>
         (\<exists>i<length ks. (\<forall>m<i. assertIsJwk (ks ! m) = Inr ())
            \<and> (\<exists>e. assertIsJwk (ks ! i) = Inl e \<and> assertIsJwks j = Inl e
                  \<and> cls e = JwkValidationError))"
  proof (intro allI impI)
    fix fs ks
    assume "j = JObj fs \<and> getprop fs ''keys'' = Some (JArr ks)
          \<and> (\<exists>k\<in>set ks. assertIsJwk k \<noteq> Inr ())"
    then show "\<exists>i<length ks. (\<forall>m<i. assertIsJwk (ks ! m) = Inr ())
            \<and> (\<exists>e. assertIsJwk (ks ! i) = Inl e \<and> assertIsJwks j = Inl e
                  \<and> cls e = JwkValidationError)"
      using assertIsJwks_member [of j fs ks] by simp
  qed
  show "\<forall>e. assertIsJwks j = Inl e \<longrightarrow>
          cls e = JwksValidationError \<or> cls e = JwkValidationError"
    using assertIsJwks_cls [of j] by simp
qed

text \<open>
  C7, on concrete values: an RSA key is accepted, an unknown field changes nothing, and a
  numeric \<open>kid\<close> is rejected with a \<^verbatim>\<open>JwkValidationError\<close>; a set of good keys is
  accepted, a set whose \<open>keys\<close> is a string is rejected with a
  \<^verbatim>\<open>JwksValidationError\<close>, and a set with a bad second key is rejected with the
  \<^verbatim>\<open>JwkValidationError\<close> of that key.
\<close>

theorem jwk_validator_refines_witness:
  "assertIsJwk (JObj [(''kty'', JStr ''RSA''), (''kid'', JStr ''k1''), (''n'', JStr ''AQAB'')]) = Inr ()
   \<and> assertIsJwk (JObj [(''zzz'', JNum 7), (''kty'', JStr ''RSA''), (''kid'', JStr ''k1'')])
       = assertIsJwk (JObj [(''kty'', JStr ''RSA''), (''kid'', JStr ''k1'')])
   \<and> (\<exists>e. assertIsJwk (JObj [(''kty'', JStr ''RSA''), (''kid'', JNum 1)]) = Inl e
          \<and> cls e = JwkValidationError)
   \<and> assertIsJwks (JObj [(''keys'', JArr [JObj key_k1, JObj key_k2])]) = Inr ()
   \<and> (\<exists>e. assertIsJwks (JObj [(''keys'', JStr ''none'')]) = Inl e
          \<and> cls e = JwksValidationError)
   \<and> (\<exists>e. assertIsJwks (JObj [(''keys'',
              JArr [JObj key_k1, JObj [(''kty'', JStr ''RSA''), (''kid'', JNum 1)]])]) = Inl e
          \<and> assertIsJwk (JObj [(''kty'', JStr ''RSA''), (''kid'', JNum 1)]) = Inl e
          \<and> cls e = JwkValidationError)"
proof -
  let ?bad = "JObj [(''kty'', JStr ''RSA''), (''kid'', JNum 1)]"
  have a: "assertIsJwk (JObj [(''kty'', JStr ''RSA''), (''kid'', JStr ''k1''), (''n'', JStr ''AQAB'')]) = Inr ()"
    using jwk_validator_refines
      [of "JObj [(''kty'', JStr ''RSA''), (''kid'', JStr ''k1''), (''n'', JStr ''AQAB'')]"]
    by (simp add: getprop_def hasprop_def optionalJwkFieldNames_def)
  have b: "assertIsJwk (JObj [(''zzz'', JNum 7), (''kty'', JStr ''RSA''), (''kid'', JStr ''k1'')])
       = assertIsJwk (JObj [(''kty'', JStr ''RSA''), (''kid'', JStr ''k1'')])"
    using jwk_validator_refines
      [of _ "[(''zzz'', JNum 7), (''kty'', JStr ''RSA''), (''kid'', JStr ''k1'')]"
            "[(''kty'', JStr ''RSA''), (''kid'', JStr ''k1'')]"]
    by (simp add: getprop_def mandatoryJwkFieldNames_def optionalJwkFieldNames_def)
  have c: "\<exists>e. assertIsJwk ?bad = Inl e \<and> cls e = JwkValidationError"
    using jwk_validator_refines [of ?bad]
    by (cases "assertIsJwk ?bad")
       (auto simp: getprop_def hasprop_def optionalJwkFieldNames_def)
  have k1: "assertIsJwk (JObj key_k1) = Inr ()"
    using jwk_validator_refines [of "JObj key_k1"]
    by (simp add: key_k1_def getprop_def hasprop_def optionalJwkFieldNames_def)
  have k2: "assertIsJwk (JObj key_k2) = Inr ()"
    using jwk_validator_refines [of "JObj key_k2"]
    by (simp add: key_k2_def getprop_def hasprop_def optionalJwkFieldNames_def)
  have d: "assertIsJwks (JObj [(''keys'', JArr [JObj key_k1, JObj key_k2])]) = Inr ()"
    using jwk_validator_refines [of "JObj [(''keys'', JArr [JObj key_k1, JObj key_k2])]"] k1 k2
    by (simp add: getprop_def)
  have e: "\<exists>e. assertIsJwks (JObj [(''keys'', JStr ''none'')]) = Inl e
      \<and> cls e = JwksValidationError"
    using jwk_validator_refines [of "JObj [(''keys'', JStr ''none'')]"]
    by (simp add: getprop_def)
  have nb: "assertIsJwk ?bad \<noteq> Inr ()" using c by auto
  have "\<exists>i<length [JObj key_k1, ?bad].
      (\<forall>m<i. assertIsJwk ([JObj key_k1, ?bad] ! m) = Inr ())
      \<and> (\<exists>e. assertIsJwk ([JObj key_k1, ?bad] ! i) = Inl e
            \<and> assertIsJwks (JObj [(''keys'', JArr [JObj key_k1, ?bad])]) = Inl e
            \<and> cls e = JwkValidationError)"
    using jwk_validator_refines [of "JObj [(''keys'', JArr [JObj key_k1, ?bad])]"] nb
    by (simp add: getprop_def)
  then obtain i e' where i: "i < length [JObj key_k1, ?bad]"
    "assertIsJwk ([JObj key_k1, ?bad] ! i) = Inl e'"
    "assertIsJwks (JObj [(''keys'', JArr [JObj key_k1, ?bad])]) = Inl e'"
    "cls e' = JwkValidationError"
    by blast
  have "i \<noteq> 0" using i(2) k1 by (cases i) auto
  then have "i = 1" using i(1) by simp
  then have "assertIsJwk ?bad = Inl e'" using i(2) by simp
  then have f: "\<exists>e. assertIsJwks (JObj [(''keys'', JArr [JObj key_k1, ?bad])]) = Inl e
      \<and> assertIsJwk ?bad = Inl e \<and> cls e = JwkValidationError"
    using i(3,4) by blast
  show ?thesis using a b c d e f by blast
qed

text \<open>
  C7 as stated fails: the validator accepts the key type \<open>oct\<close>, which is none of
  \<open>RSA\<close>, \<open>EC\<close>, \<open>OKP\<close>. The key family is checked by \<^verbatim>\<open>assertIsSignatureJwk\<close>,
  not by \<^verbatim>\<open>assertIsJwk\<close>.
\<close>

theorem jwk_kty_family_counterexample:
  "assertIsJwk (JObj [(''kty'', JStr ''oct'')]) = Inr ()
   \<and> getprop [(''kty'', JStr ''oct'')] ''kty'' = Some (JStr ''oct'')
   \<and> ''oct'' \<notin> set [''RSA'', ''EC'', ''OKP'']"
  by (simp add: assertIsJwk_def getprop_def hasprop_def mandatoryJwkFieldNames_def
      optionalJwkFieldNames_def)

section \<open>Looking a key up\<close>

lemmas sample_defs = sample_uri_def key_k1_def key_k2_def key_k2_again_def cached_set_def
  fetched_set_def token_k2_def warm_cache_def addJwks_def SimpleJwksCache_new_def
  SimplePenaltyBox_new_def getprop_def

lemmas more_defs = full_cache_def token_without_kid_def key_empty_kid_def token_empty_kid_def
  odd_cache_def blocked_cache_def fetch_error_def

lemma kid_test: "(not_nullish v \<and> v = Some (JStr kid)) = (v = Some (JStr kid))"
  by auto

lemma findJwkInJwks_find:
  "findJwkInJwks jwks kid = find (\<lambda>jwk. getprop jwk ''kid'' = Some (JStr kid)) (keys jwks)"
  by (simp add: findJwkInJwks_def kid_test)

lemma findJwkInJwks_None:
  "(findJwkInJwks jwks kid = None) =
     (\<forall>jwk\<in>set (keys jwks). getprop jwk ''kid'' \<noteq> Some (JStr kid))"
  by (auto simp: findJwkInJwks_find find_None_iff)

lemma findJwkInJwks_Some:
  "(findJwkInJwks jwks kid = Some jwk) =
     (\<exists>i<length (keys jwks). keys jwks ! i = jwk \<and> getprop jwk ''kid'' = Some (JStr kid)
        \<and> (\<forall>j<i. getprop (keys jwks ! j) ''kid'' \<noteq> Some (JStr kid)))"
  by (auto simp: findJwkInJwks_find find_Some_iff)

lemma findJwkInJwks_kid:
  "findJwkInJwks jwks kid = Some jwk \<Longrightarrow> getprop jwk ''kid'' = Some (JStr kid)"
  by (auto simp: findJwkInJwks_Some)

lemma getJwks_fresh:
  assumes "fetchingJwks s uri = None"
  shows "getJwks s uri r =
    (Some r,
     s\<lparr>fetches := fetches s @ [(uri, Delivered r)],
       trace := trace s @ [Fetch uri],
       jwksCache := (case r of Inl err \<Rightarrow> jwksCache s | Inr jwks \<Rightarrow> (jwksCache s)(uri \<mapsto> jwks))\<rparr>)"
proof -
  have "(fetchingJwks s)(uri := None) = fetchingJwks s"
    using assms by (simp add: fun_upd_idem)
  then show ?thesis
    using assms
    by (cases r)
       (simp_all add: getJwks_def getJwks_begin_def settle_def outcome_def getJwks_end_def
          Let_def nth_append)
qed

lemma getJwks_join:
  assumes "fetchingJwks s uri = Some p"
  shows "getJwks s uri r = (outcome (settle s p r) p, settle s p r)"
  using assms
  by (simp add: getJwks_def getJwks_begin_def Let_def split: option.splits)

lemma cached_lookup_hit:
  "(cached_lookup s uri kid \<noteq> None) =
     (\<exists>cached. jwksCache s uri = Some cached
        \<and> (\<exists>jwk\<in>set (keys cached). getprop jwk ''kid'' = Some (JStr kid)))"
proof (cases "jwksCache s uri")
  case None
  then show ?thesis by (simp add: cached_lookup_def)
next
  case (Some cached)
  have "(findJwkInJwks cached kid \<noteq> None) =
      (\<exists>jwk\<in>set (keys cached). getprop jwk ''kid'' = Some (JStr kid))"
    by (simp add: findJwkInJwks_None)
  with Some show ?thesis by (simp add: cached_lookup_def)
qed

text \<open>
  C4, amended. \<^verbatim>\<open>getCachedJwk\<close> changes nothing (so it never fetches) and checks
  in this order: a header without a string \<open>kid\<close> fails with
  \<^verbatim>\<open>JwtWithoutValidKidError\<close>, whether or not the URI is cached; otherwise a URI
  absent from the cache fails with \<^verbatim>\<open>JwksNotAvailableInCacheError\<close>; otherwise, when
  no cached key carries the \<open>kid\<close>, \<^verbatim>\<open>KidNotFoundInJwksError\<close>; otherwise the
  first key that carries it is returned.
\<close>

theorem getCachedJwk_checks:
  "snd (getCachedJwk s uri jwt) = s
   \<and> (\<not> typeof_string (getprop (header jwt) ''kid'') \<longrightarrow>
        (\<exists>e. fst (getCachedJwk s uri jwt) = Inl e \<and> cls e = JwtWithoutValidKidError))
   \<and> (typeof_string (getprop (header jwt) ''kid'') \<and> jwksCache s uri = None \<longrightarrow>
        (\<exists>e. fst (getCachedJwk s uri jwt) = Inl e \<and> cls e = JwksNotAvailableInCacheError))
   \<and> (\<forall>kid jwks. getprop (header jwt) ''kid'' = Some (JStr kid) \<and> jwksCache s uri = Some jwks \<longrightarrow>
        ((\<forall>jwk\<in>set (keys jwks). getprop jwk ''kid'' \<noteq> Some (JStr kid)) \<longrightarrow>
           (\<exists>e. fst (getCachedJwk s uri jwt) = Inl e \<and> cls e = KidNotFoundInJwksError))
        \<and> (\<forall>i<length (keys jwks).
              getprop (keys jwks ! i) ''kid'' = Some (JStr kid)
              \<and> (\<forall>j<i. getprop (keys jwks ! j) ''kid'' \<noteq> Some (JStr kid))
              \<longrightarrow> fst (getCachedJwk s uri jwt) = Inr (keys jwks ! i)))"
proof -
  have unchanged: "snd (getCachedJwk s uri jwt) = s"
    by (simp add: getCachedJwk_def split: option.splits json.splits)
  have nokid: "\<not> typeof_string (getprop (header jwt) ''kid'') \<Longrightarrow>
      \<exists>e. fst (getCachedJwk s uri jwt) = Inl e \<and> cls e = JwtWithoutValidKidError"
    by (cases "getprop (header jwt) ''kid''" rule: typeof_string.cases)
       (simp_all add: getCachedJwk_def new_error_def)
  have absent: "typeof_string (getprop (header jwt) ''kid'') \<Longrightarrow> jwksCache s uri = None \<Longrightarrow>
      \<exists>e. fst (getCachedJwk s uri jwt) = Inl e \<and> cls e = JwksNotAvailableInCacheError"
    by (cases "getprop (header jwt) ''kid''" rule: typeof_string.cases)
       (simp_all add: getCachedJwk_def new_error_def)
  have missing: "\<exists>e. fst (getCachedJwk s uri jwt) = Inl e \<and> cls e = KidNotFoundInJwksError"
    if "getprop (header jwt) ''kid'' = Some (JStr kid)" "jwksCache s uri = Some jwks"
       "\<forall>jwk\<in>set (keys jwks). getprop jwk ''kid'' \<noteq> Some (JStr kid)" for kid jwks
  proof -
    have "findJwkInJwks jwks kid = None" using that(3) by (simp add: findJwkInJwks_None)
    then show ?thesis using that(1,2) by (simp add: getCachedJwk_def new_error_def)
  qed
  have found: "fst (getCachedJwk s uri jwt) = Inr (keys jwks ! i)"
    if "getprop (header jwt) ''kid'' = Some (JStr kid)" "jwksCache s uri = Some jwks"
       "i < length (keys jwks)" "getprop (keys jwks ! i) ''kid'' = Some (JStr kid)"
       "\<forall>j<i. getprop (keys jwks ! j) ''kid'' \<noteq> Some (JStr kid)" for kid jwks i
  proof -
    have "findJwkInJwks jwks kid = Some (keys jwks ! i)"
      using that(3,4,5) by (auto simp: findJwkInJwks_Some)
    then show ?thesis using that(1,2) by (simp add: getCachedJwk_def)
  qed
  show ?thesis using unchanged nokid absent missing found by blast
qed

text \<open>
  C4, on the sample cache: the first of the two keys named \<open>k2\<close> is returned and the
  cache is as before.
\<close>

theorem getCachedJwk_checks_witness:
  "getCachedJwk full_cache sample_uri token_k2 = (Inr key_k2, full_cache)"
proof -
  have kid: "getprop (header token_k2) ''kid'' = Some (JStr ''k2'')"
    by (simp add: sample_defs)
  have set: "jwksCache full_cache sample_uri = Some fetched_set"
    by (simp add: sample_defs more_defs)
  have at: "(1::nat) < length (keys fetched_set)"
    "getprop (keys fetched_set ! 1) ''kid'' = Some (JStr ''k2'')"
    "keys fetched_set ! 1 = key_k2"
    "\<forall>j<(1::nat). getprop (keys fetched_set ! j) ''kid'' \<noteq> Some (JStr ''k2'')"
    by (simp_all add: sample_defs)
  have "fst (getCachedJwk full_cache sample_uri token_k2) = Inr key_k2"
    "snd (getCachedJwk full_cache sample_uri token_k2) = full_cache"
    using getCachedJwk_checks [of full_cache sample_uri token_k2] kid set at by auto
  then show ?thesis by (simp add: prod_eq_iff)
qed

text \<open>
  C4 as stated fails: with the URI absent from the cache and no \<open>kid\<close> in the header,
  the error is \<^verbatim>\<open>JwtWithoutValidKidError\<close>, not
  \<^verbatim>\<open>JwksNotAvailableInCacheError\<close>; the \<open>kid\<close> is checked first.
\<close>

theorem getCachedJwk_order_counterexample:
  "jwksCache (SimpleJwksCache_new (SimplePenaltyBox_new None)) sample_uri = None
   \<and> fst (getCachedJwk (SimpleJwksCache_new (SimplePenaltyBox_new None))
            sample_uri token_without_kid)
       = Inl (new_error JwtWithoutValidKidError ''JWT header does not have valid kid claim'')
   \<and> cls (new_error JwtWithoutValidKidError ''JWT header does not have valid kid claim'')
       \<noteq> JwksNotAvailableInCacheError"
  by (simp add: sample_defs more_defs getCachedJwk_def new_error_def)

text \<open>
  C8, amended. A key returned by \<^verbatim>\<open>getCachedJwk\<close> or \<^verbatim>\<open>getJwk\<close> has a
  string \<open>kid\<close> equal to the string \<open>kid\<close> of the JWT header (which may be the empty
  string); a key without a \<open>kid\<close> is never returned.
\<close>

theorem returned_jwk_carries_header_kid:
  assumes "fst (getCachedJwk s uri jwt) = Inr jwk \<or> fst (getJwk pb s uri jwt r) = Some (Inr jwk)"
  shows "\<exists>kid. getprop (header jwt) ''kid'' = Some (JStr kid)
           \<and> getprop jwk ''kid'' = Some (JStr kid)"
  using assms
proof
  assume "fst (getCachedJwk s uri jwt) = Inr jwk"
  then show ?thesis
    by (auto simp: getCachedJwk_def split: option.splits json.splits dest: findJwkInJwks_kid)
next
  assume a: "fst (getJwk pb s uri jwt r) = Some (Inr jwk)"
  then obtain kid where kid: "getprop (header jwt) ''kid'' = Some (JStr kid)"
    by (auto simp: getJwk_def split: option.splits json.splits)
  have "\<exists>jwks. findJwkInJwks jwks kid = Some jwk"
  proof (cases "cached_lookup s uri kid")
    case (Some c)
    with a kid have "c = jwk" by (simp add: getJwk_def)
    with Some show ?thesis by (auto simp: cached_lookup_def split: option.splits)
  next
    case None
    with a kid have "fst (getJwk_refresh pb s uri kid r) = Some (Inr jwk)"
      by (simp add: getJwk_def)
    then show ?thesis
      by (auto simp: getJwk_refresh_def getJwk_locate_def
          split: prod.splits option.splits sum.splits)
  qed
  with kid show ?thesis by (auto dest: findJwkInJwks_kid)
qed

text \<open>C8, on the sample cache: the key returned for the token with \<open>kid\<close> \<open>k2\<close>.\<close>

theorem returned_jwk_carries_header_kid_witness:
  "fst (getCachedJwk full_cache sample_uri token_k2) = Inr key_k2
   \<and> (\<exists>kid. getprop (header token_k2) ''kid'' = Some (JStr kid)
          \<and> getprop key_k2 ''kid'' = Some (JStr kid))"
proof -
  have r: "fst (getCachedJwk full_cache sample_uri token_k2) = Inr key_k2"
    by (simp add: sample_defs more_defs getCachedJwk_def findJwkInJwks_def)
  then show ?thesis
    using returned_jwk_carries_header_kid
      [of full_cache sample_uri token_k2 key_k2 simplePenaltyBox "Inr fetched_set"]
    by simp
qed

text \<open>
  C8 as stated fails: a header whose \<open>kid\<close> is the empty string resolves, in both
  methods, to the cached key whose \<open>kid\<close> is the empty string.
\<close>

theorem empty_kid_resolves_counterexample:
  "fst (getCachedJwk odd_cache sample_uri token_empty_kid) = Inr key_empty_kid
   \<and> fst (getJwk simplePenaltyBox odd_cache sample_uri token_empty_kid (Inl fetch_error))
       = Some (Inr key_empty_kid)
   \<and> getprop (header token_empty_kid) ''kid'' = Some (JStr [])
   \<and> getprop key_empty_kid ''kid'' = Some (JStr [])"
  by (simp add: sample_defs more_defs getCachedJwk_def getJwk_def cached_lookup_def
      findJwkInJwks_def)

section \<open>The order of calls in getJwk\<close>

lemma getJwk_hit:
  "getprop (header jwt) ''kid'' = Some (JStr kid) \<Longrightarrow> cached_lookup s uri kid = Some jwk \<Longrightarrow>
   getJwk pb s uri jwt r = (Some (Inr jwk), s)"
  by (simp add: getJwk_def)

lemma getJwk_miss:
  "getprop (header jwt) ''kid'' = Some (JStr kid) \<Longrightarrow> cached_lookup s uri kid = None \<Longrightarrow>
   getJwk pb s uri jwt r = getJwk_refresh pb s uri kid r"
  by (simp add: getJwk_def)

lemma getJwk_refresh_refused:
  "pb_wait pb (penaltyBox s) uri kid = (Some err, box) \<Longrightarrow>
   getJwk_refresh pb s uri kid r =
     (Some (Inl err), s\<lparr>penaltyBox := box, trace := trace s @ [Wait uri kid]\<rparr>)"
  by (simp add: getJwk_refresh_def getJwk_wait_def)

lemma getJwk_refresh_fresh_error:
  assumes "pb_wait pb (penaltyBox s) uri kid = (None, box)" "fetchingJwks s uri = None"
  shows "getJwk_refresh pb s uri kid (Inl err) =
     (Some (Inl err),
      s\<lparr>penaltyBox := box, trace := trace s @ [Wait uri kid, Fetch uri],
        fetches := fetches s @ [(uri, Delivered (Inl err))]\<rparr>)"
  using assms
  by (simp add: getJwk_refresh_def getJwk_wait_def getJwks_fresh)

lemma getJwk_refresh_fresh_absent:
  assumes "pb_wait pb (penaltyBox s) uri kid = (None, box)" "fetchingJwks s uri = None"
    "findJwkInJwks jwks kid = None"
  shows "getJwk_refresh pb s uri kid (Inr jwks) =
     (Some (Inl (new_error KidNotFoundInJwksError
             (''JWK for kid '' @ [CHR 0x22] @ kid @ [CHR 0x22] @ '' not found in the JWKS''))),
      s\<lparr>penaltyBox := pb_registerFailedAttempt pb box uri kid,
        trace := trace s @ [Wait uri kid, Fetch uri, RegisterFailed uri kid],
        fetches := fetches s @ [(uri, Delivered (Inr jwks))],
        jwksCache := (jwksCache s)(uri \<mapsto> jwks)\<rparr>)"
  using assms
  by (simp add: getJwk_refresh_def getJwk_wait_def getJwks_fresh getJwk_locate_def)

lemma getJwk_refresh_fresh_present:
  assumes "pb_wait pb (penaltyBox s) uri kid = (None, box)" "fetchingJwks s uri = None"
    "findJwkInJwks jwks kid = Some jwk"
  shows "getJwk_refresh pb s uri kid (Inr jwks) =
     (Some (Inr jwk),
      s\<lparr>penaltyBox := pb_registerSuccessfulAttempt pb box uri kid,
        trace := trace s @ [Wait uri kid, Fetch uri, RegisterSuccess uri kid],
        fetches := fetches s @ [(uri, Delivered (Inr jwks))],
        jwksCache := (jwksCache s)(uri \<mapsto> jwks)\<rparr>)"
  using assms
  by (simp add: getJwk_refresh_def getJwk_wait_def getJwks_fresh getJwk_locate_def)

lemma getJwk_refresh_joined:
  assumes "pb_wait pb (penaltyBox s) uri kid = (None, box)" "fetchingJwks s uri = Some p"
    "outcome (settle s p r) p = Some (Inr jwks)"
  shows "getJwk_refresh pb s uri kid r =
     (case findJwkInJwks jwks kid of
        None \<Rightarrow>
          (Some (Inl (new_error KidNotFoundInJwksError
             (''JWK for kid '' @ [CHR 0x22] @ kid @ [CHR 0x22] @ '' not found in the JWKS''))),
           (settle s p r)\<lparr>penaltyBox := pb_registerFailedAttempt pb box uri kid,
              trace := trace s @ [Wait uri kid, RegisterFailed uri kid]\<rparr>)
      | Some jwk \<Rightarrow>
          (Some (Inr jwk),
           (settle s p r)\<lparr>penaltyBox := pb_registerSuccessfulAttempt pb box uri kid,
              trace := trace s @ [Wait uri kid, RegisterSuccess uri kid]\<rparr>))"
proof -
  let ?s1 = "s\<lparr>penaltyBox := box, trace := trace s @ [Wait uri kid]\<rparr>"
  have s: "settle ?s1 p r = (settle s p r)\<lparr>penaltyBox := box, trace := trace s @ [Wait uri kid]\<rparr>"
    by (simp add: settle_def)
  have "outcome (x\<lparr>penaltyBox := box, trace := tr\<rparr>) p = outcome x p" for x :: "'a SimpleJwksCache" and tr
    by (simp add: outcome_def)
  then have o: "outcome (settle ?s1 p r) p = Some (Inr jwks)"
    using assms(3) by (simp add: s)
  have t: "trace (settle s p r) = trace s"
    by (simp add: settle_def)
  have "getJwks ?s1 uri r = (Some (Inr jwks), settle ?s1 p r)"
    using assms(2) o by (simp add: getJwks_join)
  then show ?thesis
    using assms(1)
    by (simp add: getJwk_refresh_def getJwk_wait_def getJwk_locate_def s t
        split: option.splits)
qed

text \<open>
  C1. For a header with a string \<open>kid\<close>: the cached look-up finds a key exactly when the
  cached JWKS of the URI has a key with that \<open>kid\<close>, and then \<^verbatim>\<open>getJwk\<close>
  returns it and leaves the state, trace included, as it was (no call of
  \<^verbatim>\<open>wait\<close>, no fetch). Otherwise \<^verbatim>\<open>penaltyBox.wait(uri, kid)\<close> is called
  first; if it fails, its error is the result and nothing else is called; if it passes
  and no fetch is in flight, the fetcher is called next, a failed fetch is the result, and
  a fetched set is searched for the \<open>kid\<close>: absent, \<^verbatim>\<open>registerFailedAttempt\<close> is
  called and the result is a \<^verbatim>\<open>KidNotFoundInJwksError\<close>; present,
  \<^verbatim>\<open>registerSuccessfulAttempt\<close> is called and the key is returned. When a fetch is
  already in flight, \<^verbatim>\<open>getJwks\<close> hands out its result and the same look-up and
  registration follow, with no further call of the fetcher.
\<close>

theorem getJwk_protocol:
  assumes "getprop (header jwt) ''kid'' = Some (JStr kid)"
  shows
  "(cached_lookup s uri kid \<noteq> None) =
     (\<exists>cached. jwksCache s uri = Some cached
        \<and> (\<exists>jwk\<in>set (keys cached). getprop jwk ''kid'' = Some (JStr kid)))
   \<and> (\<forall>jwk. cached_lookup s uri kid = Some jwk \<longrightarrow>
         getJwk pb s uri jwt r = (Some (Inr jwk), s))
   \<and> (cached_lookup s uri kid = None \<longrightarrow>
        (\<forall>err box. pb_wait pb (penaltyBox s) uri kid = (Some err, box) \<longrightarrow>
           getJwk pb s uri jwt r =
             (Some (Inl err), s\<lparr>penaltyBox := box, trace := trace s @ [Wait uri kid]\<rparr>))
      \<and> (\<forall>box. pb_wait pb (penaltyBox s) uri kid = (None, box) \<and> fetchingJwks s uri = None \<longrightarrow>
           (\<forall>err. r = Inl err \<longrightarrow>
              fst (getJwk pb s uri jwt r) = Some (Inl err)
              \<and> trace (snd (getJwk pb s uri jwt r)) = trace s @ [Wait uri kid, Fetch uri]
              \<and> penaltyBox (snd (getJwk pb s uri jwt r)) = box)
         \<and> (\<forall>jwks. r = Inr jwks \<and> findJwkInJwks jwks kid = None \<longrightarrow>
              (\<exists>e. fst (getJwk pb s uri jwt r) = Some (Inl e) \<and> cls e = KidNotFoundInJwksError)
              \<and> trace (snd (getJwk pb s uri jwt r))
                  = trace s @ [Wait uri kid, Fetch uri, RegisterFailed uri kid]
              \<and> penaltyBox (snd (getJwk pb s uri jwt r))
                  = pb_registerFailedAttempt pb box uri kid)
         \<and> (\<forall>jwks jwk. r = Inr jwks \<and> findJwkInJwks jwks kid = Some jwk \<longrightarrow>
              fst (getJwk pb s uri jwt r) = Some (Inr jwk)
              \<and> trace (snd (getJwk pb s uri jwt r))
                  = trace s @ [Wait uri kid, Fetch uri, RegisterSuccess uri kid]
              \<and> penaltyBox (snd (getJwk pb s uri jwt r))
                  = pb_registerSuccessfulAttempt pb box uri kid))
      \<and> (\<forall>box p jwks. pb_wait pb (penaltyBox s) uri kid = (None, box)
              \<and> fetchingJwks s uri = Some p \<and> outcome (settle s p r) p = Some (Inr jwks) \<longrightarrow>
           (findJwkInJwks jwks kid = None \<longrightarrow>
              (\<exists>e. fst (getJwk pb s uri jwt r) = Some (Inl e) \<and> cls e = KidNotFoundInJwksError)
              \<and> trace (snd (getJwk pb s uri jwt r))
                  = trace s @ [Wait uri kid, RegisterFailed uri kid])
         \<and> (\<forall>jwk. findJwkInJwks jwks kid = Some jwk \<longrightarrow>
              fst (getJwk pb s uri jwt r) = Some (Inr jwk)
              \<and> trace (snd (getJwk pb s uri jwt r))
                  = trace s @ [Wait uri kid, RegisterSuccess uri kid])))"
proof (cases "cached_lookup s uri kid")
  case None
  have g: "getJwk pb s uri jwt r = getJwk_refresh pb s uri kid r"
    using assms None by (rule getJwk_miss)
  show ?thesis
    unfolding g using None cached_lookup_hit [of s uri kid]
    by (simp add: getJwk_refresh_refused getJwk_refresh_fresh_error getJwk_refresh_fresh_absent
        getJwk_refresh_fresh_present getJwk_refresh_joined new_error_def)
next
  case (Some jwk)
  show ?thesis
    using assms Some cached_lookup_hit [of s uri kid] by (simp add: getJwk_hit)
qed

text \<open>
  C1, on a key rotation: the cache holds \<open>k1\<close>, the token names \<open>k2\<close>, the fetched set
  has it; the calls are \<^verbatim>\<open>wait\<close>, the fetch, \<^verbatim>\<open>registerSuccessfulAttempt\<close>.
\<close>

theorem getJwk_protocol_witness:
  "fst (getJwk simplePenaltyBox warm_cache sample_uri token_k2 (Inr fetched_set))
     = Some (Inr key_k2)
   \<and> trace (snd (getJwk simplePenaltyBox warm_cache sample_uri token_k2 (Inr fetched_set)))
     = [Wait sample_uri ''k2'', Fetch sample_uri, RegisterSuccess sample_uri ''k2'']"
proof -
  have kid: "getprop (header token_k2) ''kid'' = Some (JStr ''k2'')"
    by (simp add: sample_defs)
  have miss: "cached_lookup warm_cache sample_uri ''k2'' = None"
    by (simp add: sample_defs cached_lookup_def findJwkInJwks_def)
  have passes: "pb_wait simplePenaltyBox (penaltyBox warm_cache) sample_uri ''k2''
      = (None, penaltyBox warm_cache)"
    by (simp add: sample_defs simplePenaltyBox_def wait_def)
  have idle: "fetchingJwks warm_cache sample_uri = None"
    by (simp add: sample_defs)
  have found: "findJwkInJwks fetched_set ''k2'' = Some key_k2"
    by (simp add: sample_defs findJwkInJwks_def)
  have empty: "trace warm_cache = []"
    by (simp add: sample_defs)
  show ?thesis
    using getJwk_protocol [OF kid, of warm_cache sample_uri simplePenaltyBox "Inr fetched_set"]
      miss passes idle found empty
    by simp
qed

section \<open>getJwks and the penalty box\<close>

lemma settle_fields [simp]:
  "trace (settle s p r) = trace s" "penaltyBox (settle s p r) = penaltyBox s"
  "jwksCache (settle s p r) = jwksCache s" "fetchingJwks (settle s p r) = fetchingJwks s"
  "length (fetches (settle s p r)) = length (fetches s)"
  by (simp_all add: settle_def)

lemma settle_box: "settle (s\<lparr>penaltyBox := b\<rparr>) p r = (settle s p r)\<lparr>penaltyBox := b\<rparr>"
  by (simp add: settle_def)

lemma outcome_box: "outcome (s\<lparr>penaltyBox := b\<rparr>) p = outcome s p"
  by (simp add: outcome_def)

lemma getJwks_box: "penaltyBox (snd (getJwks s uri r)) = penaltyBox s"
  by (cases "fetchingJwks s uri") (simp_all add: getJwks_fresh getJwks_join)

lemma getJwks_box_indep:
  "getJwks (s\<lparr>penaltyBox := b\<rparr>) uri r
     = (fst (getJwks s uri r), (snd (getJwks s uri r))\<lparr>penaltyBox := b\<rparr>)"
  by (cases "fetchingJwks s uri"; cases r)
     (simp_all add: getJwks_fresh getJwks_join settle_box outcome_box)

lemma getJwks_trace:
  "trace (snd (getJwks s uri r))
     = trace s @ (if fetchingJwks s uri = None then [Fetch uri] else [])"
  by (cases "fetchingJwks s uri") (simp_all add: getJwks_fresh getJwks_join)

text \<open>
  C9. \<^verbatim>\<open>getJwks\<close> never consults the penalty box: it leaves the state of the box
  as it is, its result and its effects are the same whatever that state, the only call it
  records is the fetch (made when none is in flight), and with no fetch in flight it
  returns what the fetch yields. \<^verbatim>\<open>getJwk\<close>, on a cache miss for a URI that the
  box holds back, stops at \<^verbatim>\<open>wait\<close> with a \<^verbatim>\<open>WaitPeriodNotYetEndedJwkError\<close>
  and calls nothing else.
\<close>

theorem getJwks_ignores_penalty_box:
  fixes s :: "SimplePenaltyBox SimpleJwksCache"
  shows
  "penaltyBox (snd (getJwks s uri r)) = penaltyBox s
   \<and> getJwks (s\<lparr>penaltyBox := b\<rparr>) uri r
       = (fst (getJwks s uri r), (snd (getJwks s uri r))\<lparr>penaltyBox := b\<rparr>)
   \<and> trace (snd (getJwks s uri r))
       = trace s @ (if fetchingJwks s uri = None then [Fetch uri] else [])
   \<and> (fetchingJwks s uri = None \<longrightarrow> fst (getJwks s uri r) = Some r)
   \<and> (\<forall>jwt kid. getprop (header jwt) ''kid'' = Some (JStr kid)
          \<and> cached_lookup s uri kid = None \<and> waitingUris (penaltyBox s) uri \<noteq> None \<longrightarrow>
        (\<exists>e. fst (getJwk simplePenaltyBox s uri jwt r) = Some (Inl e)
              \<and> cls e = WaitPeriodNotYetEndedJwkError)
        \<and> trace (snd (getJwk simplePenaltyBox s uri jwt r)) = trace s @ [Wait uri kid])"
proof -
  have refused: "(\<exists>e. fst (getJwk simplePenaltyBox s uri jwt r) = Some (Inl e)
              \<and> cls e = WaitPeriodNotYetEndedJwkError)
        \<and> trace (snd (getJwk simplePenaltyBox s uri jwt r)) = trace s @ [Wait uri kid]"
    if "getprop (header jwt) ''kid'' = Some (JStr kid)" "cached_lookup s uri kid = None"
      "waitingUris (penaltyBox s) uri \<noteq> None" for jwt kid
  proof -
    have "pb_wait simplePenaltyBox (penaltyBox s) uri kid
        = (Some (new_error WaitPeriodNotYetEndedJwkError
              ''Not allowed to fetch JWKS yet, still waiting for back off period to end''),
           penaltyBox s)"
      using that(3) by (simp add: simplePenaltyBox_def wait_def)
    then show ?thesis
      using that(1,2) by (simp add: getJwk_miss getJwk_refresh_refused new_error_def)
  qed
  show ?thesis
    using refused by (simp add: getJwks_box getJwks_box_indep getJwks_trace getJwks_fresh)
qed

text \<open>
  C9, on a cache whose box holds the sample URI back: \<^verbatim>\<open>wait\<close> would fail, yet
  \<^verbatim>\<open>getJwks\<close> fetches and returns the set; \<^verbatim>\<open>getJwk\<close> stops at
  \<^verbatim>\<open>wait\<close>.
\<close>

theorem getJwks_ignores_penalty_box_witness:
  "fst (wait (penaltyBox blocked_cache) sample_uri ''k2'') \<noteq> None
   \<and> fst (getJwks blocked_cache sample_uri (Inr fetched_set)) = Some (Inr fetched_set)
   \<and> trace (snd (getJwks blocked_cache sample_uri (Inr fetched_set))) = [Fetch sample_uri]
   \<and> penaltyBox (snd (getJwks blocked_cache sample_uri (Inr fetched_set)))
       = penaltyBox blocked_cache
   \<and> trace (snd (getJwk simplePenaltyBox blocked_cache sample_uri token_k2 (Inr fetched_set)))
       = [Wait sample_uri ''k2'']"
proof -
  have kid: "getprop (header token_k2) ''kid'' = Some (JStr ''k2'')"
    by (simp add: sample_defs)
  have miss: "cached_lookup blocked_cache sample_uri ''k2'' = None"
    by (simp add: sample_defs more_defs cached_lookup_def findJwkInJwks_def)
  have waiting: "waitingUris (penaltyBox blocked_cache) sample_uri \<noteq> None"
    by (simp add: sample_defs more_defs registerFailedAttempt_def setTimeoutUnref_def Let_def)
  have idle: "fetchingJwks blocked_cache sample_uri = None"
    by (simp add: sample_defs more_defs)
  have empty: "trace blocked_cache = []"
    by (simp add: sample_defs more_defs)
  have w: "fst (wait (penaltyBox blocked_cache) sample_uri ''k2'') \<noteq> None"
    using waiting by (simp add: wait_def)
  show ?thesis
    using getJwks_ignores_penalty_box [of blocked_cache sample_uri "Inr fetched_set"]
      kid miss waiting idle empty w
    by simp
qed

section \<open>A failed fetch\<close>

lemma outcome_Some:
  "(outcome s p = Some x) =
     (p < length (fetches s)
      \<and> (snd (fetches s ! p) = Arrived x \<or> snd (fetches s ! p) = Delivered x))"
  by (cases "snd (fetches s ! p)") (simp_all add: outcome_def)

lemma fetches_begin:
  "fetches (snd (snd (getJwks_begin s u))) = fetches s
   \<or> fetches (snd (snd (getJwks_begin s u))) = fetches s @ [(u, InFlight)]"
  by (cases "fetchingJwks s u") (simp_all add: getJwks_begin_def Let_def)

lemma fetches_settle:
  "fetches (settle s q r) =
     (if q < length (fetches s) \<and> snd (fetches s ! q) = InFlight
      then (fetches s)[q := (fst (fetches s ! q), Arrived r)] else fetches s)"
  by (simp add: settle_def)

lemma fetches_end:
  "fetches (snd (getJwks_end s u q r)) = (fetches s)[q := (u, Delivered r)]"
  by (cases r) (simp_all add: getJwks_end_def Let_def)

lemma fetches_resume:
  "fetches (perform s (Resume q)) =
     (if q < length (fetches s) \<and> (\<exists>r. snd (fetches s ! q) = Arrived r)
      then (fetches s)[q := (fst (fetches s ! q), Delivered (case snd (fetches s ! q) of Arrived r \<Rightarrow> r))]
      else fetches s)"
proof (cases "q < length (fetches s)")
  case False
  then show ?thesis by simp
next
  case True
  obtain u st where e: "fetches s ! q = (u, st)" by (cases "fetches s ! q")
  show ?thesis using True e by (cases st) (simp_all add: fetches_end)
qed

lemma outcome_perform: "outcome s p = Some x \<Longrightarrow> outcome (perform s a) p = Some x"
proof (cases a)
  case (Begin u)
  assume a: "outcome s p = Some x"
  from fetches_begin [of s u] show ?thesis
  proof
    assume "fetches (snd (snd (getJwks_begin s u))) = fetches s"
    then show ?thesis using a Begin by (simp add: outcome_Some)
  next
    assume "fetches (snd (snd (getJwks_begin s u))) = fetches s @ [(u, InFlight)]"
    then show ?thesis using a Begin by (simp add: outcome_Some nth_append)
  qed
next
  case (Settle q r)
  assume a: "outcome s p = Some x"
  show ?thesis
  proof (cases "q = p")
    case True
    have "snd (fetches s ! p) \<noteq> InFlight" using a by (auto simp: outcome_Some)
    then have "fetches (settle s p r) = fetches s" by (simp add: fetches_settle)
    then show ?thesis using a Settle True by (simp add: outcome_Some)
  next
    case False
    then show ?thesis using a Settle by (simp add: outcome_Some fetches_settle)
  qed
next
  case (Resume q)
  assume a: "outcome s p = Some x"
  show ?thesis
  proof (cases "q = p")
    case True
    show ?thesis
      using a unfolding Resume True outcome_Some fetches_resume by auto
  next
    case False
    then show ?thesis
      using a unfolding Resume outcome_Some fetches_resume by simp
  qed
next
  case (Add u j)
  assume "outcome s p = Some x"
  moreover have "fetches (perform s a) = fetches s" using Add by (simp add: addJwks_def)
  ultimately show ?thesis by (simp add: outcome_Some)
next
  case (Ask pb u k)
  assume "outcome s p = Some x"
  moreover have "fetches (perform s a) = fetches s"
    using Ask by (simp add: getJwk_wait_def split: prod.splits)
  ultimately show ?thesis by (simp add: outcome_Some)
next
  case (Locate pb u k j)
  assume "outcome s p = Some x"
  moreover have "fetches (perform s a) = fetches s"
    using Locate by (simp add: getJwk_locate_def split: option.splits)
  ultimately show ?thesis by (simp add: outcome_Some)
qed

lemma outcome_run: "outcome s p = Some x \<Longrightarrow> outcome (run s acts) p = Some x"
  by (induction acts arbitrary: s) (simp_all add: outcome_perform)

lemma outcome_settle:
  "p < length (fetches s) \<Longrightarrow> snd (fetches s ! p) = InFlight \<Longrightarrow> outcome (settle s p r) p = Some r"
  by (simp add: outcome_def settle_def)

text \<open>
  C5. When the fetch (or the parse) inside \<^verbatim>\<open>getJwks(uri)\<close> fails with \<open>err\<close>:
  a call that ran alone returns \<open>err\<close>, leaves no pending entry for the URI and leaves the
  cache as it was. With other calls in between: once the promise has settled with \<open>err\<close>,
  every caller awaiting it receives \<open>err\<close>, whatever happens later, and the call that
  created the promise runs on by removing the pending entry, leaving the cache as it was and
  throwing \<open>err\<close>.
\<close>

theorem getJwks_failure:
  "(fetchingJwks s uri = None \<longrightarrow>
      fst (getJwks s uri (Inl err)) = Some (Inl err)
      \<and> fetchingJwks (snd (getJwks s uri (Inl err))) uri = None
      \<and> jwksCache (snd (getJwks s uri (Inl err))) = jwksCache s)
   \<and> (p < length (fetches s) \<and> fetches s ! p = (uri, InFlight) \<longrightarrow>
        (\<forall>acts. outcome (run (settle s p (Inl err)) acts) p = Some (Inl err))
        \<and> fst (getJwks_end (settle s p (Inl err)) uri p (Inl err)) = Inl err
        \<and> fetchingJwks (snd (getJwks_end (settle s p (Inl err)) uri p (Inl err))) uri = None
        \<and> jwksCache (snd (getJwks_end (settle s p (Inl err)) uri p (Inl err))) = jwksCache s)"
proof -
  have "outcome (run (settle s p (Inl err)) acts) p = Some (Inl err)"
    if "p < length (fetches s)" "fetches s ! p = (uri, InFlight)" for acts
    using that by (intro outcome_run outcome_settle) simp_all
  moreover have "fst (getJwks_end x uri p (Inl err)) = Inl err
      \<and> fetchingJwks (snd (getJwks_end x uri p (Inl err))) uri = None
      \<and> jwksCache (snd (getJwks_end x uri p (Inl err))) = jwksCache x" for x :: "'a SimpleJwksCache"
    by (simp add: getJwks_end_def)
  moreover have "fetchingJwks s uri = None \<Longrightarrow>
      fst (getJwks s uri (Inl err)) = Some (Inl err)
      \<and> fetchingJwks (snd (getJwks s uri (Inl err))) uri = None
      \<and> jwksCache (snd (getJwks s uri (Inl err))) = jwksCache s"
    by (simp add: getJwks_fresh)
  ultimately show ?thesis by simp
qed

text \<open>
  C5, on the sample cache: a failing call alone, and two callers sharing a fetch that
  fails.
\<close>

theorem getJwks_failure_witness:
  "fst (getJwks warm_cache sample_uri (Inl fetch_error)) = Some (Inl fetch_error)
   \<and> fetchingJwks (snd (getJwks warm_cache sample_uri (Inl fetch_error))) sample_uri = None
   \<and> jwksCache (snd (getJwks warm_cache sample_uri (Inl fetch_error))) sample_uri
       = Some cached_set
   \<and> fetches busy_cache ! 0 = (sample_uri, InFlight)
   \<and> outcome (run (settle busy_cache 0 (Inl fetch_error)) [Resume 0, Begin sample_uri]) 0
       = Some (Inl fetch_error)"
proof -
  have idle: "fetchingJwks warm_cache sample_uri = None"
    by (simp add: sample_defs)
  have cache: "jwksCache warm_cache sample_uri = Some cached_set"
    by (simp add: sample_defs)
  have flying: "0 < length (fetches busy_cache) \<and> fetches busy_cache ! 0 = (sample_uri, InFlight)"
    by (simp add: busy_cache_def sample_defs getJwks_begin_def Let_def)
  have a: "fst (getJwks warm_cache sample_uri (Inl fetch_error)) = Some (Inl fetch_error)
      \<and> fetchingJwks (snd (getJwks warm_cache sample_uri (Inl fetch_error))) sample_uri = None
      \<and> jwksCache (snd (getJwks warm_cache sample_uri (Inl fetch_error))) = jwksCache warm_cache"
    using getJwks_failure
      [where s = warm_cache and uri = sample_uri and err = fetch_error and p = 0] idle
    by blast
  have b: "outcome (run (settle busy_cache 0 (Inl fetch_error)) [Resume 0, Begin sample_uri]) 0
      = Some (Inl fetch_error)"
    using getJwks_failure
      [where s = busy_cache and uri = sample_uri and err = fetch_error and p = 0] flying
    by blast
  show ?thesis
    using a b cache flying by (simp del: run.simps)
qed

section \<open>Single flight\<close>




























section \<open>The penalty box and its timers\<close>

text \<open>
  What holds of \<^verbatim>\<open>wait\<close>: the \<open>kid\<close> arguments play no part; after
  \<^verbatim>\<open>registerSuccessfulAttempt\<close> it passes; after \<^verbatim>\<open>registerFailedAttempt\<close>
  on a box with no timer scheduled for the URI it fails until the wait period is over;
  once the period is over it passes.
\<close>

lemma fire_eq:
  "fire ts t m u = (if (\<exists>x\<in>set ts. snd (snd x) = u \<and> fst (snd x) \<le> t) then None else m u)"
proof (induction ts arbitrary: m)
  case Nil
  then show ?case by simp
next
  case (Cons x ts)
  obtain i due v where x: "x = (i, due, v)" by (cases x)
  show ?case unfolding x by (auto simp: Cons.IH)
qed

lemma wait_ignores_kid:
  "wait b uri kid = wait b uri kid'"
  "registerFailedAttempt b uri kid = registerFailedAttempt b uri kid'"
  "registerSuccessfulAttempt b uri kid = registerSuccessfulAttempt b uri kid'"
  by (simp_all add: wait_def registerFailedAttempt_def registerSuccessfulAttempt_def)

lemma wait_result:
  "fst (wait b uri kid) =
     (if waitingUris b uri = None then None
      else Some (new_error WaitPeriodNotYetEndedJwkError
        ''Not allowed to fetch JWKS yet, still waiting for back off period to end''))"
  "snd (wait b uri kid) = b"
  by (simp_all add: wait_def)

lemma wait_after_success:
  "fst (wait (registerSuccessfulAttempt b uri kid) uri kid') = None"
  by (cases "waitingUris b uri")
     (simp_all add: wait_result registerSuccessfulAttempt_def release_def clearTimeout_def)

lemma failed_fields:
  "timers (registerFailedAttempt b uri kid)
     = timers b @ [(Suc (issued b), clock b + waitSeconds b * 1000, uri)]"
  "waitingUris (registerFailedAttempt b uri kid) = (waitingUris b)(uri \<mapsto> Suc (issued b))"
  "clock (registerFailedAttempt b uri kid) = clock b"
  "issued (registerFailedAttempt b uri kid) = Suc (issued b)"
  "waitSeconds (registerFailedAttempt b uri kid) = waitSeconds b"
  by (simp_all add: registerFailedAttempt_def setTimeoutUnref_def Let_def)

lemma advance_fields:
  "waitingUris (advance b t) = fire (timers b) t (waitingUris b)"
  "timers (advance b t) = filter (\<lambda>(i, due, u). t < due) (timers b)"
  "clock (advance b t) = max (clock b) t"
  "issued (advance b t) = issued b"
  "waitSeconds (advance b t) = waitSeconds b"
  by (simp_all add: advance_def)

lemma wait_fails_in_period:
  assumes "\<forall>x\<in>set (timers b). snd (snd x) \<noteq> uri" "t < clock b + waitSeconds b * 1000"
  shows "\<exists>e. fst (wait (advance (registerFailedAttempt b uri kid) t) uri kid') = Some e
           \<and> cls e = WaitPeriodNotYetEndedJwkError"
  using assms
  by (auto simp: wait_result advance_fields failed_fields fire_eq new_error_def)

lemma wait_passes_after_period:
  assumes "clock b + waitSeconds b * 1000 \<le> t"
  shows "fst (wait (advance (registerFailedAttempt b uri kid) t) uri kid') = None"
  using assms
  by (auto simp: wait_result advance_fields failed_fields fire_eq)

text \<open>
  C3 says that after \<^verbatim>\<open>registerFailedAttempt(uri)\<close> every \<^verbatim>\<open>wait(uri)\<close>
  within \<open>waitSeconds\<close> of the failed attempt fails. Evaluated where the code does
  otherwise, on a box with \<open>waitSeconds = 10\<close>: \<^verbatim>\<open>registerFailedAttempt\<close> at
  time 0 and again at 5 s. At 10 s, five seconds after the second failed attempt, the
  timer of the first has fired and \<^verbatim>\<open>wait\<close> passes.
\<close>

theorem wait_passes_inside_wait_period:
  "clock (advance (registerFailedAttempt (SimplePenaltyBox_new (Some 10)) sample_uri ''k8'') 5000)
     = 5000
   \<and> clock (advance (registerFailedAttempt
        (advance (registerFailedAttempt (SimplePenaltyBox_new (Some 10)) sample_uri ''k8'') 5000)
        sample_uri ''k9'') 10000) = 10000
   \<and> (10000::nat) < 5000 + 10 * 1000
   \<and> fst (wait (advance (registerFailedAttempt
        (advance (registerFailedAttempt (SimplePenaltyBox_new (Some 10)) sample_uri ''k8'') 5000)
        sample_uri ''k9'') 10000) sample_uri ''k9'') = None"
  by (simp add: SimplePenaltyBox_new_def registerFailedAttempt_def setTimeoutUnref_def
      advance_def wait_def Let_def sample_uri_def)

text \<open>
  C10. \<^verbatim>\<open>registerFailedAttempt\<close> stores the new timer over the old one without
  cancelling it. When it is called at a time \<open>t2\<close> inside the wait period of an earlier
  failed attempt for the same URI: both timers are scheduled afterwards and the URI's
  entry is the second; at the end of the first period the first timer has fired, the URI
  is no longer waiting and \<^verbatim>\<open>wait\<close> passes, strictly before \<open>waitSeconds\<close> have
  elapsed since the second failed attempt, whose timer is still scheduled.
\<close>

theorem stale_timer_ends_wait_early:
  assumes "clock b < t2" "t2 < clock b + waitSeconds b * 1000"
  shows "let w = waitSeconds b * 1000;
             b1 = registerFailedAttempt b uri kid1;
             b2 = registerFailedAttempt (advance b1 t2) uri kid2;
             b3 = advance b2 (clock b + w)
         in (Suc (issued b), clock b + w, uri) \<in> set (timers b2)
          \<and> (Suc (Suc (issued b)), t2 + w, uri) \<in> set (timers b2)
          \<and> waitingUris b2 uri = Some (Suc (Suc (issued b)))
          \<and> waitingUris b3 uri = None
          \<and> fst (wait b3 uri kid3) = None
          \<and> clock b3 = clock b + w
          \<and> clock b3 < t2 + w
          \<and> (Suc (Suc (issued b)), t2 + w, uri) \<in> set (timers b3)"
proof -
  let ?w = "waitSeconds b * 1000"
  let ?b1 = "registerFailedAttempt b uri kid1"
  let ?b2 = "registerFailedAttempt (advance ?b1 t2) uri kid2"
  let ?b3 = "advance ?b2 (clock b + ?w)"
  have c2: "clock (advance ?b1 t2) = t2"
    using assms(1) by (simp add: advance_fields failed_fields)
  have i2: "issued (advance ?b1 t2) = Suc (issued b)"
    by (simp add: advance_fields failed_fields)
  have w2: "waitSeconds (advance ?b1 t2) = waitSeconds b"
    by (simp add: advance_fields failed_fields)
  have t2: "timers ?b2 = timers (advance ?b1 t2) @ [(Suc (Suc (issued b)), t2 + ?w, uri)]"
    unfolding failed_fields(1) [of "advance ?b1 t2"] c2 i2 w2 ..
  have "(Suc (issued b), clock b + ?w, uri) \<in> set (timers (advance ?b1 t2))"
    using assms(2) by (simp add: advance_fields failed_fields)
  then have first: "(Suc (issued b), clock b + ?w, uri) \<in> set (timers ?b2)"
    unfolding t2 by simp
  have second: "(Suc (Suc (issued b)), t2 + ?w, uri) \<in> set (timers ?b2)"
    unfolding t2 by simp
  have entry: "waitingUris ?b2 uri = Some (Suc (Suc (issued b)))"
    unfolding failed_fields(2) [of "advance ?b1 t2"] i2 by simp
  have gone: "waitingUris ?b3 uri = None"
    unfolding advance_fields fire_eq using first by force
  have passes: "fst (wait ?b3 uri kid3) = None"
    using gone by (simp add: wait_result)
  have "clock ?b2 = t2"
    unfolding failed_fields(3) [of "advance ?b1 t2"] c2 ..
  then have c3: "clock ?b3 = clock b + ?w"
    using assms unfolding advance_fields(3) [of ?b2] by simp
  have early: "clock ?b3 < t2 + ?w"
    using c3 assms(1) by simp
  have still: "(Suc (Suc (issued b)), t2 + ?w, uri) \<in> set (timers ?b3)"
    unfolding advance_fields(2) [of ?b2] using second assms(1) by simp
  show ?thesis
    unfolding Let_def using first second entry gone passes c3 early still by blast
qed

text \<open>
  C10, with the default wait of ten seconds: failures at 0 and at 4 s, \<^verbatim>\<open>wait\<close>
  passes at 10 s.
\<close>

theorem stale_timer_ends_wait_early_witness:
  "waitingUris twice_failed sample_uri = Some 2
   \<and> (1, 10000, sample_uri) \<in> set (timers twice_failed)
   \<and> fst (wait (advance twice_failed 10000) sample_uri ''k9'') = None
   \<and> clock (advance twice_failed 10000) = 10000
   \<and> clock (advance twice_failed 10000) < 4000 + waitSeconds fresh_box * 1000"
proof -
  have f: "clock fresh_box = 0" "waitSeconds fresh_box = 10" "issued fresh_box = 0"
    by (simp_all add: fresh_box_def SimplePenaltyBox_new_def)
  have h: "clock fresh_box < 4000" "4000 < clock fresh_box + waitSeconds fresh_box * 1000"
    by (simp_all add: f)
  show ?thesis
    using stale_timer_ends_wait_early [OF h, of sample_uri "''k8''" "''k9''" "''k9''"]
    unfolding Let_def twice_failed_def [symmetric] f
    by simp
qed

section \<open>The ALB checks and the raw JWT\<close>

lemma assert_fresh:
  "assertStringArrayContainsString name actual expected = Inl err \<Longrightarrow>
   rawJwt err = None \<and> cls err = JwtInvalidClaimError"
  by (auto simp: assertStringArrayContainsString_def new_error_def
      split: option.splits json.splits if_splits)

lemma validateAlbJwtFields_fresh:
  "validateAlbJwtFields hdr options = Inl err \<Longrightarrow> rawJwt err = None"
  by (auto simp: validateAlbJwtFields_def new_error_def
      split: if_splits sum.splits dest: assert_fresh)

lemma verify_sync: "verifySync found jwt props = verify found jwt props"
  by (simp add: verifySync_def verify_def)

lemma verify_base_error:
  "verifyDecomposedJwt found jwt props = Inl e \<Longrightarrow> verify found jwt props = Inl e"
  by (simp add: verify_def)

lemma verify_signature_error:
  "verify (SignatureFailed c msg) jwt props = Inl (new_error c msg)"
  by (simp add: verify_def verifyDecomposedJwt_def)

lemma verify_alb_error:
  assumes "validateAlbJwtFields (header jwt) props = Inl err"
  shows "\<exists>e. verify Passed jwt props = Inl e \<and> cls e = cls err \<and> message e = message err
     \<and> (rawJwt e \<noteq> None)
         = (includeRawJwtInErrors props = Some True \<and> instanceof_JwtInvalidClaimError err)
     \<and> (rawJwt e \<noteq> None \<longrightarrow> rawJwt e = Some jwt)"
  using assms validateAlbJwtFields_fresh [OF assms]
  by (simp add: verify_def verifyDecomposedJwt_def withRawJwt_def)

lemma signer_mismatch:
  assumes "albArn props \<noteq> Null" "albArn props \<noteq> Undefined"
    "\<forall>a. getprop (header jwt) ''signer'' = Some (JStr a) \<longrightarrow> a \<notin> set (candidates (albArn props))"
  shows "\<exists>err. validateAlbJwtFields (header jwt) props = Inl err \<and> cls err = JwtInvalidClaimError"
proof -
  have "\<exists>err. assertStringArrayContainsString ''ALB ARN'' (getprop (header jwt) ''signer'')
      (albArn props) = Inl err \<and> cls err = JwtInvalidClaimError"
    using assms(3)
    by (auto simp: assertStringArrayContainsString_def new_error_def
        split: option.splits json.splits)
  then show ?thesis
    using assms(1,2) by (auto simp: validateAlbJwtFields_def)
qed

text \<open>
  C6. \<^verbatim>\<open>verify\<close> and \<^verbatim>\<open>verifySync\<close> behave alike. When the base
  verification fails, its error is the result as it is and the ALB checks play no part; an
  error of the signature verification carries no raw JWT. When it passes and an ALB check
  fails, the error thrown is that check's, and it carries the decomposed JWT exactly when
  \<open>includeRawJwtInErrors\<close> is true and the error is a \<^verbatim>\<open>JwtInvalidClaimError\<close>.
  When all pass the payload is returned. A header \<open>signer\<close> that is not the configured
  \<open>albArn\<close> (or one of them) fails with a \<^verbatim>\<open>JwtInvalidClaimError\<close>.
\<close>

theorem alb_checks_follow_signature:
  "verifySync found jwt props = verify found jwt props
   \<and> (\<forall>e. verifyDecomposedJwt found jwt props = Inl e \<longrightarrow> verify found jwt props = Inl e)
   \<and> (\<forall>c msg. found = SignatureFailed c msg \<longrightarrow>
         (\<exists>e. verify found jwt props = Inl e \<and> rawJwt e = None))
   \<and> (\<forall>err. found = Passed \<and> validateAlbJwtFields (header jwt) props = Inl err \<longrightarrow>
         (\<exists>e. verify found jwt props = Inl e \<and> cls e = cls err \<and> message e = message err
            \<and> (rawJwt e \<noteq> None)
                = (includeRawJwtInErrors props = Some True \<and> instanceof_JwtInvalidClaimError err)
            \<and> (rawJwt e \<noteq> None \<longrightarrow> rawJwt e = Some jwt)))
   \<and> (found = Passed \<and> validateAlbJwtFields (header jwt) props = Inr () \<longrightarrow>
         verify found jwt props = Inr (payload jwt))
   \<and> (found = Passed \<and> albArn props \<noteq> Null \<and> albArn props \<noteq> Undefined
        \<and> (\<forall>a. getprop (header jwt) ''signer'' = Some (JStr a) \<longrightarrow>
               a \<notin> set (candidates (albArn props))) \<longrightarrow>
         (\<exists>e. verify found jwt props = Inl e \<and> cls e = JwtInvalidClaimError
            \<and> (rawJwt e \<noteq> None) = (includeRawJwtInErrors props = Some True)))"
proof (intro conjI allI impI)
  show "verifySync found jwt props = verify found jwt props" by (rule verify_sync)
next
  fix e assume "verifyDecomposedJwt found jwt props = Inl e"
  then show "verify found jwt props = Inl e" by (rule verify_base_error)
next
  fix c msg assume "found = SignatureFailed c msg"
  then show "\<exists>e. verify found jwt props = Inl e \<and> rawJwt e = None"
    by (simp add: verify_signature_error new_error_def)
next
  fix err assume "found = Passed \<and> validateAlbJwtFields (header jwt) props = Inl err"
  then show "\<exists>e. verify found jwt props = Inl e \<and> cls e = cls err \<and> message e = message err
            \<and> (rawJwt e \<noteq> None)
                = (includeRawJwtInErrors props = Some True \<and> instanceof_JwtInvalidClaimError err)
            \<and> (rawJwt e \<noteq> None \<longrightarrow> rawJwt e = Some jwt)"
    using verify_alb_error [of jwt props err] by simp
next
  assume "found = Passed \<and> validateAlbJwtFields (header jwt) props = Inr ()"
  then show "verify found jwt props = Inr (payload jwt)"
    by (simp add: verify_def verifyDecomposedJwt_def)
next
  assume a: "found = Passed \<and> albArn props \<noteq> Null \<and> albArn props \<noteq> Undefined
        \<and> (\<forall>a. getprop (header jwt) ''signer'' = Some (JStr a) \<longrightarrow>
               a \<notin> set (candidates (albArn props)))"
  then obtain err where err: "validateAlbJwtFields (header jwt) props = Inl err"
    "cls err = JwtInvalidClaimError"
    using signer_mismatch [of props jwt] by blast
  have "instanceof_JwtInvalidClaimError err"
    using err(2) by (simp add: instanceof_JwtInvalidClaimError_def)
  then show "\<exists>e. verify found jwt props = Inl e \<and> cls e = JwtInvalidClaimError
            \<and> (rawJwt e \<noteq> None) = (includeRawJwtInErrors props = Some True)"
    using verify_alb_error [OF err(1)] err(2) a by auto
qed

text \<open>
  C6, on scenario S5 with the flag set: the wrong signer gives a
  \<^verbatim>\<open>JwtInvalidClaimError\<close> carrying the raw JWT; a signature failure carries none.
\<close>

theorem alb_checks_follow_signature_witness:
  "(\<exists>e. verify Passed alb_token alb_props = Inl e \<and> cls e = JwtInvalidClaimError
        \<and> rawJwt e \<noteq> None)
   \<and> (\<exists>e. verify (SignatureFailed JwtInvalidSignatureError ''Invalid signature'')
              alb_token alb_props = Inl e
        \<and> rawJwt e = None)"
proof -
  have p: "albArn alb_props \<noteq> Null" "albArn alb_props \<noteq> Undefined"
    "includeRawJwtInErrors alb_props = Some True"
    "\<forall>a. getprop (header alb_token) ''signer'' = Some (JStr a) \<longrightarrow>
        a \<notin> set (candidates (albArn alb_props))"
    by (simp_all add: alb_props_def alb_token_def getprop_def)
  have a: "\<exists>e. verify Passed alb_token alb_props = Inl e \<and> cls e = JwtInvalidClaimError
        \<and> rawJwt e \<noteq> None"
    using alb_checks_follow_signature [of Passed alb_token alb_props] p by simp
  have b: "\<exists>e. verify (SignatureFailed JwtInvalidSignatureError ''Invalid signature'')
              alb_token alb_props = Inl e \<and> rawJwt e = None"
    using alb_checks_follow_signature
      [of "SignatureFailed JwtInvalidSignatureError ''Invalid signature''" alb_token alb_props]
    by simp
  show ?thesis using a b by (rule conjI)
qed

end
